theory Spec2Isabelle
  imports Main "HOL-Library.Word"
begin

unbundle bit_operations_syntax

section \<open>Bytes, slices and errors\<close>

text \<open>
  The Go source works on \<^verbatim>\<open>[]byte\<close>. A byte is an 8-bit word, a slice is a list.
  Go's \<^verbatim>\<open>int\<close> (64 bit) only ever holds lengths and token sizes far below its range
  here, so lengths and sizes are natural numbers; every subtraction of the source is
  guarded by a comparison and never goes below zero.
\<close>

type_synonym byte = "8 word"

text \<open>
  Every \<^verbatim>\<open>errors.New\<close> / \<^verbatim>\<open>fmt.Errorf\<close> of \<^verbatim>\<open>bsm.go\<close> is one constructor; the
  arguments are the values the message is formatted with. \<open>EOF\<close> is \<^verbatim>\<open>io.EOF\<close> and
  \<open>Panic\<close> is a Go run-time panic (slice bounds out of range).
\<close>

datatype error =
    ErrOverflow                \<comment> \<open>"more than ... bytes given -> risk of overflow"\<close>
  | ErrInvalidAddr byte nat    \<comment> \<open>"invalid value (%d) for '...' field in ... token": token ID, value\<close>
  | ErrUnknownSize byte        \<comment> \<open>"can't determine the size of the given token (type): 0x%x"\<close>
  | ErrInvalidLength           \<comment> \<open>"invalid length of 32bit header token"\<close>
  | ErrTokenIDMismatch         \<comment> \<open>"token ID mismatch"\<close>
  | ErrReadCount nat nat       \<comment> \<open>"read n bytes, but wanted exactly k"\<close>
  | ErrAddrLength byte         \<comment> \<open>"can't process length of terminal machine address" and its sibling\<close>
  | ErrNewTokenID byte         \<comment> \<open>"new token ID found: 0x%x"\<close>
  | ErrNoHeader                \<comment> \<open>"no header token found"\<close>
  | EOF
  | Panic

text \<open>\<^verbatim>\<open>input[lo:hi]\<close> where the source has checked the length before.\<close>

definition subslice :: "byte list \<Rightarrow> nat \<Rightarrow> nat \<Rightarrow> byte list" where
  "subslice input lo hi = take (hi - lo) (drop lo input)"

section \<open>Byte-integer primitives\<close>

text \<open>
  \<^verbatim>\<open>bytesToUint64\<close>, \<^verbatim>\<open>bytesToUint32\<close>, \<^verbatim>\<open>bytesToUint16\<close>: the loop runs
  \<^verbatim>\<open>i\<close> from 0 to \<^verbatim>\<open>len(input) - 1\<close> and adds
  \<^verbatim>\<open>coeff * powerOf256\<close> to the result, in the unsigned type of the result.
  \<^verbatim>\<open>math.Pow(256, exp)\<close> is evaluated in float64; the exponent is at most 7 behind
  the length check, and the powers of 256 up to \<open>2 ^ 56\<close> are exact there, so
  \<^verbatim>\<open>powerOf256\<close> is \<open>256 ^ exp\<close>.
\<close>

definition bytesToUint64 :: "byte list \<Rightarrow> error + 64 word" where
  "bytesToUint64 input =
     (if 8 < length input then Inl ErrOverflow
      else Inr (fold (\<lambda>i result. result + ucast (input ! i) * 256 ^ (length input - i - 1))
                  [0..<length input] 0))"

definition bytesToUint32 :: "byte list \<Rightarrow> error + 32 word" where
  "bytesToUint32 input =
     (if 4 < length input then Inl ErrOverflow
      else Inr (fold (\<lambda>i result. result + ucast (input ! i) * 256 ^ (length input - i - 1))
                  [0..<length input] 0))"

definition bytesToUint16 :: "byte list \<Rightarrow> error + 16 word" where
  "bytesToUint16 input =
     (if 2 < length input then Inl ErrOverflow
      else Inr (fold (\<lambda>i result. result + ucast (input ! i) * 256 ^ (length input - i - 1))
                  [0..<length input] 0))"

section \<open>Token sizer\<close>

text \<open>
  \<^verbatim>\<open>determineTokenSize\<close> returns \<^verbatim>\<open>(size, moreBytes, err)\<close>; the three named results
  start at \<open>0\<close>, \<open>0\<close>, \<^verbatim>\<open>nil\<close>. The sums of field widths are kept as the source
  writes them. \<^verbatim>\<open>bytes.Count(s, []byte{0x00})\<close> counts the zero bytes of \<open>s\<close>.
\<close>

definition countNul :: "byte list \<Rightarrow> nat" where
  "countNul s = length (filter (\<lambda>b. b = 0) s)"

definition determineTokenSize :: "byte list \<Rightarrow> nat \<times> nat \<times> error option" where
  "determineTokenSize input =
   (if 0 = length input then (0, 1, None)
    else let tid = input ! 0 in
    if tid = 0x11 then
      (if length input < 1 + 4 + 4 + 2 then (0, (1 + 4 + 4 + 2) - length input, None)
       else case bytesToUint16 (subslice input 9 11) of
              Inl local_err \<Rightarrow> (0, 0, Some local_err)
            | Inr fileNameLength \<Rightarrow> (1 + 4 + 4 + 2 + unat fileNameLength + 1, 0, None))
    else if tid = 0x13 then (1 + 2 + 4, 0, None)
    else if tid = 0x14 then (1 + 4 + 1 + 2 + 2 + 4 + 4, 0, None)
    else if tid = 0x15 then
      (if length input < 15 then (0, 15 - length input, None)
       else case bytesToUint32 (subslice input 10 14) of
              Inl cerr \<Rightarrow> (0, 0, Some cerr)
            | Inr addrlen \<Rightarrow>
                if addrlen = 4 then (1 + 4 + 1 + 2 + 2 + 4 + 4 + 4 + 4, 0, None)
                else if addrlen = 16 then (1 + 4 + 1 + 2 + 2 + 4 + 16 + 4 + 4, 0, None)
                else (0, 0, Some (ErrInvalidAddr tid (unat addrlen))))
    else if tid = 0x21 then
      (if length input < 4 then (0, 4 - length input, None)
       else let unitSize = input ! 2; unitCount = input ! 3
            in (1 + 1 + 1 + 1 + unat unitSize * unat unitCount, 0, None))
    else if tid = 0x22 then (1 + 1 + 4, 0, None)
    else if tid = 0x23 then
      (if length input < 3 then (0, 3 - length input, None)
       else case bytesToUint16 (subslice input 1 3) of
              Inl cerr \<Rightarrow> (0, 0, Some cerr)
            | Inr count \<Rightarrow> (1 + 2 + unat count, 0, None))
    else if tid = 0x24 then (1 + 4 + 4 + 4 + 4 + 4 + 4 + 4 + 4 + 4, 0, None)
    else if tid = 0x25 then
      (if length input < 3 then (0, 3 - length input, None)
       else case bytesToUint16 (subslice input 1 3) of
              Inl cerr \<Rightarrow> (0, 0, Some cerr)
            | Inr strCount \<Rightarrow>
                if countNul (drop 3 input) < unat strCount then (0, 1, None)
                else (length input, 0, None))
    else if tid = 0x26 then (1 + 4 + 4 + 4 + 4 + 4 + 4 + 4 + 4 + 4, 0, None)
    else if tid = 0x27 then (1 + 1 + 4, 0, None)
    else if tid = 0x28 then
      (if length input < 3 then (0, 3 - length input, None)
       else case bytesToUint16 (subslice input 1 3) of
              Inl cerr \<Rightarrow> (0, 0, Some cerr)
            | Inr count \<Rightarrow> (1 + 2 + unat count, 0, None))
    else if tid = 0x2a then (1 + 4, 0, None)
    else if tid = 0x2b then (1 + 1 + 1 + 2 + 2 + 2 + 1 + 1 + 2 + 4 + 4, 0, None)
    else if tid = 0x2c then (1 + 2, 0, None)
    else if tid = 0x2d then
      (if length input < 8 then (0, 8 - length input, None)
       else case bytesToUint16 (subslice input 6 8) of
              Inl cerr \<Rightarrow> (0, 0, Some cerr)
            | Inr strlen \<Rightarrow> (1 + 1 + 4 + 2 + unat strlen, 0, None))
    else if tid = 0x2e then (1 + 2 + 2 + 4, 0, None)
    else if tid = 0x2f then (1 + 4, 0, None)
    else if tid = 0x32 then (1 + 4 + 4 + 4 + 4 + 4 + 4 + 4, 0, None)
    else if tid = 0x34 then
      (if length input < 3 then (0, 3 - length input, None)
       else case bytesToUint16 (subslice input 1 3) of
              Inl cerr \<Rightarrow> (0, 0, Some cerr)
            | Inr count \<Rightarrow> (1 + 2 + unat count * 4, 0, None))
    else if tid = 0x3c then
      (if length input < 5 then (0, 5 - length input, None)
       else case bytesToUint32 (subslice input 1 5) of
              Inl cerr \<Rightarrow> (0, 0, Some cerr)
            | Inr strCount \<Rightarrow>
                if countNul (drop 5 input) < unat strCount then (0, 1, None)
                else (length input, 0, None))
    else if tid = 0x3d then
      (if length input < 5 then (0, 5 - length input, None)
       else case bytesToUint32 (subslice input 1 5) of
              Inl cerr \<Rightarrow> (0, 0, Some cerr)
            | Inr strCount \<Rightarrow>
                if countNul (drop 5 input) < unat strCount then (0, 1, None)
                else (length input, 0, None))
    else if tid = 0x3e then (1 + 4 + 4 + 4 + 4 + 8 + 4, 0, None)
    else if tid = 0x52 then (1 + 4 + 4, 0, None)
    else if tid = 0x60 then
      (if length input < 3 then (0, 3 - length input, None)
       else case bytesToUint16 (subslice input 1 3) of
              Inl cerr \<Rightarrow> (0, 0, Some cerr)
            | Inr strlen \<Rightarrow> (1 + 2 + unat strlen, 0, None))
    else if tid = 0x71 then
      (if length input < 12 then (0, 12 - length input, None)
       else case bytesToUint16 (subslice input 10 12) of
              Inl cerr \<Rightarrow> (0, 0, Some cerr)
            | Inr strlen \<Rightarrow> (1 + 1 + 8 + 2 + unat strlen + 1, 0, None))
    else if tid = 0x72 then (1 + 1 + 8, 0, None)
    else if tid = 0x73 then (1 + 4 + 4 + 4 + 4 + 8 + 8, 0, None)
    else if tid = 0x74 then (1 + 4 + 1 + 2 + 2 + 8 + 8, 0, None)
    else if tid = 0x75 then (1 + 4 + 4 + 4 + 4 + 4 + 4 + 4 + 8 + 4, 0, None)
    else if tid = 0x77 then (1 + 4 + 4 + 4 + 4 + 4 + 4 + 4 + 8 + 8, 0, None)
    else if tid = 0x79 then
      (if length input < 15 then (0, 15 - length input, None)
       else case bytesToUint32 (subslice input 10 14) of
              Inl cerr \<Rightarrow> (0, 0, Some cerr)
            | Inr addrlen \<Rightarrow>
                if addrlen = 4 then (1 + 4 + 2 + 2 + 2 + 4 + 4 + 8 + 8, 0, None)
                else if addrlen = 16 then (1 + 4 + 2 + 2 + 2 + 4 + 16 + 8 + 8, 0, None)
                else (0, 0, Some (ErrInvalidAddr tid (unat addrlen))))
    else if tid = 0x7a then
      (if length input < 37 then (0, 37 - length input, None)
       else case bytesToUint32 (subslice input 33 37) of
              Inl cerr \<Rightarrow> (0, 0, Some cerr)
            | Inr addrlen \<Rightarrow>
                if addrlen = 4 then (1 + 4 + 4 + 4 + 4 + 4 + 4 + 4 + 4 + 4 + 4, 0, None)
                else if addrlen = 16 then (1 + 4 + 4 + 4 + 4 + 4 + 4 + 4 + 4 + 4 + 16, 0, None)
                else (0, 0, Some (ErrInvalidAddr tid (unat addrlen))))
    else if tid = 0x7b then
      (if length input < 37 then (0, 37 - length input, None)
       else case bytesToUint32 (subslice input 33 37) of
              Inl cerr \<Rightarrow> (0, 0, Some cerr)
            | Inr addrlen \<Rightarrow>
                if addrlen = 4 then (1 + 4 + 4 + 4 + 4 + 4 + 4 + 4 + 4 + 4 + 4, 0, None)
                else if addrlen = 16 then (1 + 4 + 4 + 4 + 4 + 4 + 4 + 4 + 4 + 4 + 16, 0, None)
                else (0, 0, Some (ErrInvalidAddr tid (unat addrlen))))
    else if tid = 0x7c then
      (if length input < 38 then (0, 38 - length input, None)
       else let addrlen = input ! 37 in
            if addrlen = 4 then (1 + 4 + 4 + 4 + 4 + 4 + 4 + 4 + 8 + 1 + 4, 0, None)
            else if addrlen = 16 then (1 + 4 + 4 + 4 + 4 + 4 + 4 + 4 + 8 + 1 + 16, 0, None)
            else (0, 0, Some (ErrInvalidAddr tid (unat addrlen))))
    else if tid = 0x7e then (1 + 1 + 16, 0, None)
    else if tid = 0x7f then
      (if length input < 7 then (0, 7 - length input, None)
       else case bytesToUint16 (subslice input 5 7) of
              Inl cerr \<Rightarrow> (0, 0, Some cerr)
            | Inr addrlen \<Rightarrow>
                if addrlen = 4 then (1 + 2 + 2 + 2 + 2 + 4 + 2 + 4, 0, None)
                else if addrlen = 16 then (1 + 2 + 2 + 2 + 2 + 16 + 2 + 16, 0, None)
                else (0, 0, Some (ErrInvalidAddr tid (unat addrlen))))
    else if tid = 0x80 then (1 + 2 + 2 + 4, 0, None)
    else if tid = 0x81 then (1 + 2 + 2 + 16, 0, None)
    else if tid = 0x82 then (1 + 2 + 2 + 4, 0, None)
    else (0, 0, Some (ErrUnknownSize tid)))"

section \<open>Tokens\<close>

text \<open>
  \<^verbatim>\<open>net.IP\<close> is a byte slice. \<^verbatim>\<open>net.IPv4(a, b, c, d)\<close> of the Go standard library
  returns the 16-byte form of the address: the prefix of an IPv4-mapped IPv6 address
  followed by the four bytes.
\<close>

type_synonym IP = "byte list"

definition IPv4 :: "byte \<Rightarrow> byte \<Rightarrow> byte \<Rightarrow> byte \<Rightarrow> IP" where
  "IPv4 a b c d = [0, 0, 0, 0, 0, 0, 0, 0, 0, 0, 0xff, 0xff, a, b, c, d]"

text \<open>
  The token structs the decoder builds and the framer inspects, one constructor each,
  with the fields in the order of the struct. A Go \<^verbatim>\<open>string\<close> is its bytes;
  \<^verbatim>\<open>int32\<close> is a 32-bit word read with \<open>sint\<close>.
\<close>

datatype token =
    TrailerToken byte "16 word" "32 word"
      \<comment> \<open>TokenID, TrailerMagic, RecordByteCount\<close>
  | HeaderToken32bit byte "32 word" byte "16 word" "16 word" "32 word" "32 word"
      \<comment> \<open>TokenID, RecordByteCount, VersionNumber, EventType, EventModifier, Seconds, NanoSeconds\<close>
  | HeaderToken64bit byte "32 word" byte "16 word" "16 word" "64 word" "64 word"
  | ExpandedHeaderToken32bit byte "32 word" byte "16 word" "16 word" "32 word" IP "32 word" "32 word"
      \<comment> \<open>..., EventModifier, AddressType, MachineAddress, Seconds, NanoSeconds\<close>
  | ExpandedHeaderToken64bit byte "32 word" byte "16 word" "16 word" "32 word" IP "64 word" "64 word"
  | PathToken byte "16 word" "byte list"
      \<comment> \<open>TokenID, PathLength, Path\<close>
  | SubjectToken32bit byte "32 word" "32 word" "32 word" "32 word" "32 word" "32 word" "32 word" "32 word" IP
      \<comment> \<open>TokenID, AuditID, EffectiveUserID, EffectiveGroupID, RealUserID, RealGroupID,
          ProcessID, SessionID, TerminalPortID, TerminalMachineAddress\<close>
  | ReturnToken32bit byte byte "32 word"
      \<comment> \<open>TokenID, ErrorNumber, ReturnValue\<close>
  | TextToken byte "16 word" "byte list"
      \<comment> \<open>TokenID, TextLength, Text\<close>
  | IPortToken byte "16 word"
      \<comment> \<open>TokenID, PortNumber\<close>
  | ArgToken32bit byte byte "32 word" "16 word" "byte list"
      \<comment> \<open>TokenID, ArgumentID, ArgumentValue, Length, Text\<close>
  | SocketToken byte "16 word" "16 word" IP
      \<comment> \<open>TokenID, SocketFamily, LocalPort, SocketAddress\<close>
  | AttributeToken32bit byte "32 word" "32 word" "32 word" "32 word" "64 word" "32 word"
      \<comment> \<open>TokenID, FileAccessMode, OwnerUserID, OwnerGroupID, FileSystemID, FileSystemNodeID, Device\<close>
  | ExitToken byte "32 word" "32 word"
      \<comment> \<open>TokenID, Status, ReturnValue (int32)\<close>
  | ZonenameToken byte "16 word" "byte list"
      \<comment> \<open>TokenID, ZonenameLength, Zonename\<close>
  | AttributeToken64bit byte "32 word" "32 word" "32 word" "32 word" "64 word" "64 word"
  | ExpandedSubjectToken32bit byte "32 word" "32 word" "32 word" "32 word" "32 word" "32 word" "32 word" "32 word" "32 word" IP
      \<comment> \<open>..., TerminalPortID, TerminalAddressLength, TerminalMachineAddress\<close>
  | ExpandedProcessToken32bit byte "32 word" "32 word" "32 word" "32 word" "32 word" "32 word" "32 word" "32 word" "32 word" IP

fun TokenID :: "token \<Rightarrow> byte" where
  "TokenID (TrailerToken i _ _) = i"
| "TokenID (HeaderToken32bit i _ _ _ _ _ _) = i"
| "TokenID (HeaderToken64bit i _ _ _ _ _ _) = i"
| "TokenID (ExpandedHeaderToken32bit i _ _ _ _ _ _ _ _) = i"
| "TokenID (ExpandedHeaderToken64bit i _ _ _ _ _ _ _ _) = i"
| "TokenID (PathToken i _ _) = i"
| "TokenID (SubjectToken32bit i _ _ _ _ _ _ _ _ _) = i"
| "TokenID (ReturnToken32bit i _ _) = i"
| "TokenID (TextToken i _ _) = i"
| "TokenID (IPortToken i _) = i"
| "TokenID (ArgToken32bit i _ _ _ _) = i"
| "TokenID (SocketToken i _ _ _) = i"
| "TokenID (AttributeToken32bit i _ _ _ _ _ _) = i"
| "TokenID (ExitToken i _ _) = i"
| "TokenID (ZonenameToken i _ _) = i"
| "TokenID (AttributeToken64bit i _ _ _ _ _ _) = i"
| "TokenID (ExpandedSubjectToken32bit i _ _ _ _ _ _ _ _ _ _) = i"
| "TokenID (ExpandedProcessToken32bit i _ _ _ _ _ _ _ _ _ _) = i"

section \<open>Token decoder\<close>

text \<open>
  The decoder slices the token buffer without checking its length, so here a slice or
  an index out of range is the panic Go raises. \<open>bnd\<close> is the
  \<^verbatim>\<open>if err != nil { return nil, err }\<close> after each call.
\<close>

definition bnd :: "error + 'a \<Rightarrow> ('a \<Rightarrow> error + 'b) \<Rightarrow> error + 'b" where
  "bnd m f = (case m of Inl err \<Rightarrow> Inl err | Inr v \<Rightarrow> f v)"

definition sliceChk :: "byte list \<Rightarrow> nat \<Rightarrow> nat \<Rightarrow> error + byte list" where
  "sliceChk b lo hi = (if lo \<le> hi \<and> hi \<le> length b then Inr (subslice b lo hi) else Inl Panic)"

definition u16At :: "byte list \<Rightarrow> nat \<Rightarrow> nat \<Rightarrow> error + 16 word" where
  "u16At b lo hi = bnd (sliceChk b lo hi) bytesToUint16"

definition u32At :: "byte list \<Rightarrow> nat \<Rightarrow> nat \<Rightarrow> error + 32 word" where
  "u32At b lo hi = bnd (sliceChk b lo hi) bytesToUint32"

definition u64At :: "byte list \<Rightarrow> nat \<Rightarrow> nat \<Rightarrow> error + 64 word" where
  "u64At b lo hi = bnd (sliceChk b lo hi) bytesToUint64"

definition byteAt :: "byte list \<Rightarrow> nat \<Rightarrow> error + byte" where
  "byteAt b i = (if i < length b then Inr (b ! i) else Inl Panic)"

text \<open>\<^verbatim>\<open>net.IPv4(b[i], b[i+1], b[i+2], b[i+3])\<close>\<close>

definition ipv4At :: "byte list \<Rightarrow> nat \<Rightarrow> error + IP" where
  "ipv4At b i =
     bnd (byteAt b i) (\<lambda>a0. bnd (byteAt b (i + 1)) (\<lambda>a1.
     bnd (byteAt b (i + 2)) (\<lambda>a2. bnd (byteAt b (i + 3)) (\<lambda>a3. Inr (IPv4 a0 a1 a2 a3)))))"

text \<open>
  \<^verbatim>\<open>binary.Uvarint\<close> and \<^verbatim>\<open>binary.Varint\<close> of the Go standard library
  (\<^verbatim>\<open>encoding/binary\<close>, not part of this repository), which the exit token calls:
  base-128 groups, least significant first, a byte below \<open>0x80\<close> ends the number;
  \<^verbatim>\<open>Varint\<close> undoes the zig-zag encoding. The second result is the number of bytes read
  (\<open>0\<close>: buffer too small, negative: overflow).
\<close>

fun Uvarint_from :: "nat \<Rightarrow> 64 word \<Rightarrow> nat \<Rightarrow> byte list \<Rightarrow> 64 word \<times> int" where
  "Uvarint_from i x s [] = (0, 0)"
| "Uvarint_from i x s (b # buf) =
     (if i = 10 then (0, - (int i + 1))
      else if b < 0x80 then
        (if i = 9 \<and> 1 < b then (0, - (int i + 1))
         else (x OR push_bit s (ucast b), int i + 1))
      else Uvarint_from (i + 1) (x OR push_bit s (ucast (b AND 0x7f))) (s + 7) buf)"

definition Uvarint :: "byte list \<Rightarrow> 64 word \<times> int" where
  "Uvarint buf = Uvarint_from 0 0 0 buf"

definition Varint :: "byte list \<Rightarrow> 64 word \<times> int" where
  "Varint buf =
     (let (ux, n) = Uvarint buf; x = drop_bit 1 ux
      in (if ux AND 1 \<noteq> 0 then NOT x else x, n))"

text \<open>\<^verbatim>\<open>ParseHeaderToken32bit\<close>: the length is checked first, so its slices are in range.\<close>

definition ParseHeaderToken32bit :: "byte list \<Rightarrow> error + token" where
  "ParseHeaderToken32bit input =
     (if length input \<noteq> 18 then Inl ErrInvalidLength
      else let tokenID = input ! 0 in
      if tokenID \<noteq> 0x14 then Inl ErrTokenIDMismatch
      else
        bnd (bytesToUint32 (subslice input 1 5)) (\<lambda>recordByteCount.
        let versionNumber = input ! 5 in
        bnd (bytesToUint16 (subslice input 6 8)) (\<lambda>eventType.
        bnd (bytesToUint16 (subslice input 8 10)) (\<lambda>eventModifier.
        bnd (bytesToUint32 (subslice input 10 14)) (\<lambda>seconds.
        bnd (bytesToUint32 (subslice input 14 18)) (\<lambda>nanoSeconds.
        Inr (HeaderToken32bit tokenID recordByteCount versionNumber eventType eventModifier
               seconds nanoSeconds)))))))"

text \<open>
  The second half of \<^verbatim>\<open>TokenFromByteInput\<close> ("process the buffer"): the switch on
  \<^verbatim>\<open>tokenBuffer[0]\<close> that builds the token. The string fields are cut at
  \<^verbatim>\<open>length+2\<close> (\<^verbatim>\<open>length+7\<close> for the arg token), computed in \<^verbatim>\<open>uint16\<close>.
\<close>

definition processBuffer :: "byte list \<Rightarrow> error + token" where
  "processBuffer tokenBuffer =
   (if tokenBuffer = [] then Inl Panic
    else let tid = tokenBuffer ! 0 in
    if tid = 0x13 then
      bnd (u16At tokenBuffer 1 3) (\<lambda>tmagic.
      bnd (u32At tokenBuffer 3 6) (\<lambda>bcount.
      Inr (TrailerToken tid tmagic bcount)))
    else if tid = 0x14 then ParseHeaderToken32bit tokenBuffer
    else if tid = 0x23 then
      bnd (u16At tokenBuffer 1 3) (\<lambda>length16.
      bnd (sliceChk tokenBuffer 3 (unat (length16 + 2))) (\<lambda>path.
      Inr (PathToken tid length16 path)))
    else if tid = 0x24 then
      bnd (u32At tokenBuffer 1 5) (\<lambda>auditID.
      bnd (u32At tokenBuffer 5 9) (\<lambda>effectiveUserID.
      bnd (u32At tokenBuffer 9 13) (\<lambda>effectiveGroupID.
      bnd (u32At tokenBuffer 13 17) (\<lambda>realUserID.
      bnd (u32At tokenBuffer 17 21) (\<lambda>realGroupID.
      bnd (u32At tokenBuffer 21 25) (\<lambda>processID.
      bnd (u32At tokenBuffer 25 29) (\<lambda>sessionID.
      bnd (u32At tokenBuffer 29 33) (\<lambda>terminalPortID.
      bnd (ipv4At tokenBuffer 33) (\<lambda>terminalMachineAddress.
      Inr (SubjectToken32bit tid auditID effectiveUserID effectiveGroupID realUserID
             realGroupID processID sessionID terminalPortID terminalMachineAddress))))))))))
    else if tid = 0x27 then
      bnd (u32At tokenBuffer 2 6) (\<lambda>rval.
      bnd (byteAt tokenBuffer 1) (\<lambda>errorNumber.
      Inr (ReturnToken32bit tid errorNumber rval)))
    else if tid = 0x28 then
      bnd (u16At tokenBuffer 1 3) (\<lambda>length16.
      bnd (sliceChk tokenBuffer 3 (unat (length16 + 2))) (\<lambda>text.
      Inr (TextToken tid length16 text)))
    else if tid = 0x2c then
      bnd (u16At tokenBuffer 1 3) (\<lambda>port.
      Inr (IPortToken tid port))
    else if tid = 0x2d then
      bnd (byteAt tokenBuffer 1) (\<lambda>argumentID.
      bnd (u32At tokenBuffer 2 6) (\<lambda>val.
      bnd (u16At tokenBuffer 6 8) (\<lambda>length16.
      bnd (sliceChk tokenBuffer 8 (unat (length16 + 7))) (\<lambda>text.
      Inr (ArgToken32bit tid argumentID val length16 text)))))
    else if tid = 0x2e then
      bnd (u16At tokenBuffer 1 3) (\<lambda>socketFamily.
      bnd (u16At tokenBuffer 3 5) (\<lambda>localPort.
      bnd (ipv4At tokenBuffer 5) (\<lambda>socketAddress.
      Inr (SocketToken tid socketFamily localPort socketAddress))))
    else if tid = 0x3e then
      bnd (u32At tokenBuffer 1 5) (\<lambda>fileAccessMode.
      bnd (u32At tokenBuffer 5 9) (\<lambda>ownerUserID.
      bnd (u32At tokenBuffer 9 13) (\<lambda>ownerGroupID.
      bnd (u32At tokenBuffer 13 17) (\<lambda>fileSystemID.
      bnd (u64At tokenBuffer 17 25) (\<lambda>fileSystemNodeID.
      bnd (u32At tokenBuffer 25 29) (\<lambda>device.
      Inr (AttributeToken32bit tid fileAccessMode ownerUserID ownerGroupID fileSystemID
             fileSystemNodeID device)))))))
    else if tid = 0x52 then
      bnd (u32At tokenBuffer 1 3) (\<lambda>stat.
      bnd (sliceChk tokenBuffer 3 7) (\<lambda>buf.
      let (rval, _) = Varint buf in
      Inr (ExitToken tid stat (ucast rval))))
    else if tid = 0x60 then
      bnd (u16At tokenBuffer 1 3) (\<lambda>length16.
      bnd (sliceChk tokenBuffer 3 (unat (length16 + 2))) (\<lambda>zonename.
      Inr (ZonenameToken tid length16 zonename)))
    else if tid = 0x73 then
      bnd (u32At tokenBuffer 1 5) (\<lambda>fileAccessMode.
      bnd (u32At tokenBuffer 5 9) (\<lambda>ownerUserID.
      bnd (u32At tokenBuffer 9 13) (\<lambda>ownerGroupID.
      bnd (u32At tokenBuffer 13 17) (\<lambda>fileSystemID.
      bnd (u64At tokenBuffer 17 25) (\<lambda>fileSystemNodeID.
      bnd (u64At tokenBuffer 25 33) (\<lambda>device.
      Inr (AttributeToken64bit tid fileAccessMode ownerUserID ownerGroupID fileSystemID
             fileSystemNodeID device)))))))
    else if tid = 0x7a then
      bnd (u32At tokenBuffer 1 5) (\<lambda>auditID.
      bnd (u32At tokenBuffer 5 9) (\<lambda>effectiveUserID.
      bnd (u32At tokenBuffer 9 13) (\<lambda>effectiveGroupID.
      bnd (u32At tokenBuffer 13 17) (\<lambda>realUserID.
      bnd (u32At tokenBuffer 17 21) (\<lambda>realGroupID.
      bnd (u32At tokenBuffer 21 25) (\<lambda>processID.
      bnd (u32At tokenBuffer 25 29) (\<lambda>sessionID.
      bnd (u32At tokenBuffer 29 33) (\<lambda>terminalPortID.
      bnd (u32At tokenBuffer 33 37) (\<lambda>val.
      bnd (if val = 4 then ipv4At tokenBuffer 37
           else if val = 16 then sliceChk tokenBuffer 37 53
           else Inl (ErrAddrLength tid)) (\<lambda>terminalMachineAddress.
      Inr (ExpandedSubjectToken32bit tid auditID effectiveUserID effectiveGroupID realUserID
             realGroupID processID sessionID terminalPortID val terminalMachineAddress)))))))))))
    else if tid = 0x7b then
      bnd (u32At tokenBuffer 1 5) (\<lambda>auditID.
      bnd (u32At tokenBuffer 5 9) (\<lambda>effectiveUserID.
      bnd (u32At tokenBuffer 9 13) (\<lambda>effectiveGroupID.
      bnd (u32At tokenBuffer 13 17) (\<lambda>realUserID.
      bnd (u32At tokenBuffer 17 21) (\<lambda>realGroupID.
      bnd (u32At tokenBuffer 21 25) (\<lambda>processID.
      bnd (u32At tokenBuffer 25 29) (\<lambda>sessionID.
      bnd (u32At tokenBuffer 29 33) (\<lambda>terminalPortID.
      bnd (u32At tokenBuffer 33 37) (\<lambda>val.
      bnd (if val = 4 then ipv4At tokenBuffer 37
           else if val = 16 then sliceChk tokenBuffer 37 53
           else Inl (ErrAddrLength tid)) (\<lambda>terminalMachineAddress.
      Inr (ExpandedProcessToken32bit tid auditID effectiveUserID effectiveGroupID realUserID
             realGroupID processID sessionID terminalPortID val terminalMachineAddress)))))))))))
    else if tid = 0x80 then
      bnd (u16At tokenBuffer 1 3) (\<lambda>socketFamily.
      bnd (u16At tokenBuffer 3 5) (\<lambda>localPort.
      bnd (ipv4At tokenBuffer 5) (\<lambda>socketAddress.
      Inr (SocketToken tid socketFamily localPort socketAddress))))
    else if tid = 0x81 then
      bnd (u16At tokenBuffer 1 3) (\<lambda>socketFamily.
      bnd (u16At tokenBuffer 3 5) (\<lambda>localPort.
      bnd (sliceChk tokenBuffer 5 21) (\<lambda>socketAddress.
      Inr (SocketToken tid socketFamily localPort socketAddress))))
    else if tid = 0x82 then
      bnd (u16At tokenBuffer 1 3) (\<lambda>socketFamily.
      bnd (u16At tokenBuffer 3 5) (\<lambda>localPort.
      bnd (ipv4At tokenBuffer 5) (\<lambda>socketAddress.
      Inr (SocketToken tid socketFamily localPort socketAddress))))
    else Inl (ErrNewTokenID tid))"

section \<open>Reading a token from the byte source\<close>

text \<open>
  The byte source is an \<^verbatim>\<open>io.Reader\<close>. It is modelled as the bytes not yet consumed,
  read the way \<^verbatim>\<open>bytes.Buffer\<close> (the reader of the repository's tests) and a file
  are: \<^verbatim>\<open>Read(p)\<close> with an empty \<^verbatim>\<open>p\<close> returns \<open>0\<close> and no error; at the end
  of the data it returns \<^verbatim>\<open>io.EOF\<close>; otherwise it hands over as many of the
  remaining bytes as \<^verbatim>\<open>p\<close> holds. The result is the bytes stored into \<^verbatim>\<open>p\<close>
  (their number is \<^verbatim>\<open>n\<close>), the error and the reader afterwards.
\<close>

type_synonym reader = "byte list"

definition Read :: "reader \<Rightarrow> nat \<Rightarrow> (byte list \<times> error option) \<times> reader" where
  "Read input k =
     (if k = 0 then (([], None), input)
      else if input = [] then (([], Some EOF), input)
      else ((take k input, None), drop k input))"

text \<open>
  The loop \<^verbatim>\<open>for increase > 0\<close> of \<^verbatim>\<open>TokenFromByteInput\<close>. \<open>tokenBuffer\<close> is the
  filled part \<^verbatim>\<open>tokenBuffer[0:bufidx]\<close> of the buffer, so \<^verbatim>\<open>bufidx\<close> is its length.
\<close>

function readIncrease :: "reader \<Rightarrow> byte list \<Rightarrow> nat \<Rightarrow> (error + byte list) \<times> reader" where
  "readIncrease input tokenBuffer increase =
     (if 0 < increase then
        (case Read input increase of
           ((data, Some err), input') \<Rightarrow> (Inl err, input')
         | ((data, None), input') \<Rightarrow>
             if length data \<noteq> increase
             then readIncrease input' (tokenBuffer @ data) (increase - length data)
             else readIncrease input' (tokenBuffer @ data) 0)
      else (Inr tokenBuffer, input))"
  by pat_completeness auto
termination
  by (relation "measure (\<lambda>(input, tokenBuffer, increase). increase)")
     (auto simp: Read_def split: if_splits)

text \<open>
  The end of the reading part: the buffer grows to \<^verbatim>\<open>buflen\<close>, the remaining bytes
  are read into \<^verbatim>\<open>tokenBuffer[bufidx:buflen]\<close> (a panic when \<^verbatim>\<open>buflen < bufidx\<close>)
  and the buffer is processed.
\<close>

definition readRemaining :: "reader \<Rightarrow> byte list \<Rightarrow> nat \<Rightarrow> (error + token) \<times> reader" where
  "readRemaining input tokenBuffer buflen =
     (let bufidx = length tokenBuffer in
      if buflen < bufidx then (Inl Panic, input)
      else case Read input (buflen - bufidx) of
             ((data, Some err), input') \<Rightarrow> (Inl err, input')
           | ((data, None), input') \<Rightarrow>
               if length data \<noteq> buflen - bufidx
               then (Inl (ErrReadCount (length data) (buflen - bufidx)), input')
               else (processBuffer (tokenBuffer @ data), input'))"

definition TokenFromByteInput :: "reader \<Rightarrow> (error + token) \<times> reader" where
  "TokenFromByteInput input =
     (case Read input 1 of
        ((data, Some err), input1) \<Rightarrow> (Inl err, input1)
      | ((tokenBuffer, None), input1) \<Rightarrow>
          if length tokenBuffer \<noteq> 1 then (Inl (ErrReadCount (length tokenBuffer) 1), input1)
          else (case determineTokenSize tokenBuffer of
                  (buflen, increase, Some err) \<Rightarrow> (Inl err, input1)
                | (buflen, increase, None) \<Rightarrow>
                    (if increase \<noteq> 0 then
                       (case readIncrease input1 tokenBuffer increase of
                          (Inl err, input2) \<Rightarrow> (Inl err, input2)
                        | (Inr tokenBuffer2, input2) \<Rightarrow>
                            (case determineTokenSize tokenBuffer2 of
                               (buflen2, increase2, Some err) \<Rightarrow> (Inl err, input2)
                             | (buflen2, increase2, None) \<Rightarrow>
                                 readRemaining input2 tokenBuffer2 buflen2))
                     else readRemaining input1 tokenBuffer buflen)))"

section \<open>Record framer\<close>

record BsmRecord =
  Seconds :: "64 word"
  NanoSeconds :: "64 word"
  Tokens :: "token list"

text \<open>\<^verbatim>\<open>_, isEnd := nextToken.(TrailerToken)\<close>\<close>

fun isTrailerToken :: "token \<Rightarrow> bool" where
  "isTrailerToken (TrailerToken _ _ _) = True"
| "isTrailerToken _ = False"

text \<open>
  The loop \<^verbatim>\<open>for !isEnd\<close> of \<^verbatim>\<open>ReadBsmRecord\<close>. Every token read takes at least
  its ID byte from the reader, which is why the loop ends.
\<close>

function recordLoop :: "BsmRecord \<Rightarrow> token \<Rightarrow> reader \<Rightarrow> (BsmRecord \<times> error option) \<times> reader" where
  "recordLoop rec nextToken input =
     (if \<not> isTrailerToken nextToken then
        (let rec' = rec\<lparr>Tokens := Tokens rec @ [nextToken]\<rparr> in
         case TokenFromByteInput input of
           (Inl err, input') \<Rightarrow> ((rec', Some err), input')
         | (Inr nextToken', input') \<Rightarrow> recordLoop rec' nextToken' input')
      else ((rec, None), input))"
  by pat_completeness auto
termination
proof -
  have Read_le: "length i' \<le> length i" if "Read i k = ((d, e), i')" for i k d e i'
    using that by (auto simp: Read_def split: if_splits)
  have inc: "length (snd (readIncrease i b k)) \<le> length i" for i b k
  proof (induction i b k rule: readIncrease.induct)
    case (1 i b k)
    show ?case
    proof (cases "0 < k")
      case False
      then show ?thesis by simp
    next
      case True
      obtain d e i' where R: "Read i k = ((d, e), i')" by (metis prod.exhaust)
      have le: "length i' \<le> length i" using R by (rule Read_le)
      show ?thesis
      proof (cases e)
        case (Some err)
        then show ?thesis using True R le by simp
      next
        case None
        have a: "length d \<noteq> k \<Longrightarrow> length (snd (readIncrease i' (b @ d) (k - length d))) \<le> length i'"
          using "1.IH"(1)[OF True R[symmetric] refl None] by simp
        have c: "\<not> length d \<noteq> k \<Longrightarrow> length (snd (readIncrease i' (b @ d) 0)) \<le> length i'"
          using "1.IH"(2)[OF True R[symmetric] refl None] by simp
        show ?thesis
        proof (cases "length d \<noteq> k")
          case True
          then show ?thesis using a le R None \<open>0 < k\<close>
            by (simp del: readIncrease.simps add: readIncrease.simps[of i b k])
        next
          case False
          then show ?thesis using c le R None \<open>0 < k\<close>
            by (simp del: readIncrease.simps add: readIncrease.simps[of i b k])
        qed
      qed
    qed
  qed
  have rem: "length (snd (readRemaining i b k)) \<le> length i" for i b k
    by (auto simp: readRemaining_def Read_def Let_def split: if_splits)
  have consumed: "length input' < length input"
    if T: "TokenFromByteInput input = (Inr t, input')" for input t input'
  proof (cases input)
    case Nil
    then show ?thesis using T by (simp add: TokenFromByteInput_def Read_def)
  next
    case (Cons a rest)
    have R: "Read input 1 = (([a], None), rest)" using Cons by (simp add: Read_def)
    obtain buflen increase e where D: "determineTokenSize [a] = (buflen, increase, e)"
      by (metis prod.exhaust)
    show ?thesis
    proof (cases "increase = 0")
      case True
      then have "input' = snd (readRemaining rest [a] buflen)"
        using T R D by (cases e) (simp_all add: TokenFromByteInput_def)
      then show ?thesis using rem[of rest "[a]" buflen] Cons by simp
    next
      case False
      obtain r i2 where I: "readIncrease rest [a] increase = (r, i2)" by (metis prod.exhaust)
      have i2: "length i2 \<le> length rest" using inc[of rest "[a]" increase] I by simp
      show ?thesis
      proof (cases r)
        case (Inl err)
        then show ?thesis using T R D I False by (cases e) (simp_all add: TokenFromByteInput_def)
      next
        case (Inr tb2)
        obtain buflen2 increase2 e2 where D2: "determineTokenSize tb2 = (buflen2, increase2, e2)"
          by (metis prod.exhaust)
        have "input' = snd (readRemaining i2 tb2 buflen2)"
          using T R D I False Inr D2 by (cases e; cases e2) (simp_all add: TokenFromByteInput_def)
        then show ?thesis using rem[of i2 tb2 buflen2] i2 Cons by simp
      qed
    qed
  qed
  show ?thesis
    by (relation "measure (\<lambda>(rec, nextToken, input). length input)")
       (auto dest: consumed[OF sym])
qed


text \<open>
  The type switch on the header token in \<^verbatim>\<open>ReadBsmRecord\<close>: the seconds and
  nanoseconds of the four header structs, those of the 32-bit structs converted with
  \<^verbatim>\<open>uint64(...)\<close>; \<open>None\<close> is the \<^verbatim>\<open>default\<close> branch.
\<close>

fun headerTime :: "token \<Rightarrow> (64 word \<times> 64 word) option" where
  "headerTime (HeaderToken32bit _ _ _ _ _ seconds nanoSeconds) =
     Some (ucast seconds, ucast nanoSeconds)"
| "headerTime (HeaderToken64bit _ _ _ _ _ seconds nanoSeconds) =
     Some (seconds, nanoSeconds)"
| "headerTime (ExpandedHeaderToken32bit _ _ _ _ _ _ _ seconds nanoSeconds) =
     Some (ucast seconds, ucast nanoSeconds)"
| "headerTime (ExpandedHeaderToken64bit _ _ _ _ _ _ _ seconds nanoSeconds) =
     Some (seconds, nanoSeconds)"
| "headerTime _ = None"

text \<open>
  \<^verbatim>\<open>ReadBsmRecord\<close> returns the record together with the error, also when the error
  is not \<^verbatim>\<open>nil\<close>.
\<close>

definition ReadBsmRecord :: "reader \<Rightarrow> (BsmRecord \<times> error option) \<times> reader" where
  "ReadBsmRecord input =
     (let rec = \<lparr>Seconds = 0, NanoSeconds = 0, Tokens = []\<rparr> in
      case TokenFromByteInput input of
        (Inl err, input1) \<Rightarrow> ((rec, Some err), input1)
      | (Inr header, input1) \<Rightarrow>
          (case headerTime header of
             None \<Rightarrow> ((rec, Some ErrNoHeader), input1)
           | Some (seconds, nanoSeconds) \<Rightarrow>
               (let rec1 = rec\<lparr>Seconds := seconds, NanoSeconds := nanoSeconds\<rparr> in
                case TokenFromByteInput input1 of
                  (Inl err, input2) \<Rightarrow> ((rec1, Some err), input2)
                | (Inr nextToken, input2) \<Rightarrow> recordLoop rec1 nextToken input2)))"

section \<open>Vocabulary of the specification\<close>

text \<open>
  The big-endian (network byte order) value of a byte sequence, and the \<open>k\<close>-byte
  big-endian encoding of a number, most significant byte first. These two follow the
  specification's words; the primitives above are compared with them.
\<close>

definition big_endian_value :: "byte list \<Rightarrow> nat" where
  "big_endian_value bs = foldl (\<lambda>acc b. 256 * acc + unat b) 0 bs"

fun big_endian_bytes :: "nat \<Rightarrow> nat \<Rightarrow> byte list" where
  "big_endian_bytes 0 N = []"
| "big_endian_bytes (Suc k) N = big_endian_bytes k (N div 256) @ [word_of_nat (N mod 256)]"

text \<open>
  \<open>readsTokens input ts input'\<close>: successive calls of \<^verbatim>\<open>TokenFromByteInput\<close> on the
  reader \<open>input\<close> return the tokens \<open>ts\<close>, in this order and without error, and leave
  the reader \<open>input'\<close>.
\<close>

fun readsTokens :: "reader \<Rightarrow> token list \<Rightarrow> reader \<Rightarrow> bool" where
  "readsTokens input [] input' = (input' = input)"
| "readsTokens input (t # ts) input' =
     (case TokenFromByteInput input of
        (Inl err, input1) \<Rightarrow> False
      | (Inr t', input1) \<Rightarrow> t' = t \<and> readsTokens input1 ts input')"


section \<open>Byte-integer primitives: lemmas\<close>

lemma big_endian_value_snoc:
  "big_endian_value (bs @ [b]) = 256 * big_endian_value bs + unat b"
  by (simp add: big_endian_value_def)

lemma big_endian_value_sum:
  "big_endian_value bs = (\<Sum>i<length bs. unat (bs ! i) * 256 ^ (length bs - i - 1))"
proof (induction bs rule: rev_induct)
  case Nil
  show ?case by (simp add: big_endian_value_def)
next
  case (snoc b bs)
  have "(\<Sum>i<length bs. unat ((bs @ [b]) ! i) * 256 ^ (length (bs @ [b]) - i - 1))
        = (\<Sum>i<length bs. 256 * (unat (bs ! i) * 256 ^ (length bs - i - 1)))"
  proof (rule sum.cong[OF refl])
    fix i assume "i \<in> {..<length bs}"
    then have i: "i < length bs" by simp
    then have "length bs - i = Suc (length bs - i - 1)" by simp
    then have "(256::nat) ^ (length bs - i) = 256 * 256 ^ (length bs - i - 1)"
      by (metis power_Suc)
    with i show "unat ((bs @ [b]) ! i) * 256 ^ (length (bs @ [b]) - i - 1)
        = 256 * (unat (bs ! i) * 256 ^ (length bs - i - 1))"
      by (simp add: nth_append)
  qed
  then show ?case using snoc by (simp add: big_endian_value_snoc sum_distrib_left)
qed

lemma fold_word_sum:
  fixes f :: "nat \<Rightarrow> nat"
  shows "fold (\<lambda>i (result::'a::len word). result + word_of_nat (f i)) [0..<k] 0
         = word_of_nat (\<Sum>i<k. f i)"
  by (induction k) simp_all

lemma ucast_times_power:
  "(ucast (b::byte) :: 'a::len word) * 256 ^ e = word_of_nat (unat b * 256 ^ e)"
  by simp

lemma loop_big_endian:
  "fold (\<lambda>i (result::'a::len word). result + ucast (input ! i) * 256 ^ (length input - i - 1))
     [0..<length input] 0 = word_of_nat (big_endian_value input)"
  unfolding ucast_times_power big_endian_value_sum by (rule fold_word_sum)

lemma big_endian_value_less: "big_endian_value bs < 256 ^ length bs"
proof (induction bs rule: rev_induct)
  case Nil
  show ?case by (simp add: big_endian_value_def)
next
  case (snoc b bs)
  have "unat b < 256" using unsigned_less[of b, where ?'a = nat] by simp
  with snoc show ?case by (simp add: big_endian_value_snoc)
qed

lemma big_endian_value_bytes: "big_endian_value (big_endian_bytes k N) = N mod 256 ^ k"
proof (induction k arbitrary: N)
  case 0
  show ?case by (simp add: big_endian_value_def)
next
  case (Suc k)
  have "unat (word_of_nat (N mod 256) :: byte) = N mod 256"
    by (simp add: unat_of_nat)
  then show ?case using Suc by (simp add: big_endian_value_snoc mod_mult2_eq)
qed

lemma length_big_endian_bytes: "length (big_endian_bytes k N) = k"
  by (induction k arbitrary: N) simp_all

lemma bytesToUint16_value:
  "length input \<le> 2 \<Longrightarrow> bytesToUint16 input = Inr (word_of_nat (big_endian_value input))"
  using loop_big_endian[of input, where ?'a = 16] by (simp add: bytesToUint16_def)

lemma bytesToUint32_value:
  "length input \<le> 4 \<Longrightarrow> bytesToUint32 input = Inr (word_of_nat (big_endian_value input))"
  using loop_big_endian[of input, where ?'a = 32] by (simp add: bytesToUint32_def)

lemma bytesToUint64_value:
  "length input \<le> 8 \<Longrightarrow> bytesToUint64 input = Inr (word_of_nat (big_endian_value input))"
  using loop_big_endian[of input, where ?'a = 64] by (simp add: bytesToUint64_def)

lemma big_endian_bytes_numeral:
  "big_endian_bytes (numeral k) N
   = big_endian_bytes (pred_numeral k) (N div 256) @ [word_of_nat (N mod 256)]"
  by (metis big_endian_bytes.simps(2) numeral_eq_Suc)

text \<open>
  Claim C4. For each width \<open>w\<close> of 16, 32 and 64 bits and each natural number \<open>N\<close>
  below \<open>2 ^ w\<close>, the primitive of that width applied to the \<open>w / 8\<close>-byte big-endian
  encoding of \<open>N\<close> returns \<open>N\<close> and no error; applied to a slice of more than
  \<open>w / 8\<close> bytes it returns the overflow error and no value.
\<close>

theorem integer_round_trip:
  "(N < 2 ^ 16 \<longrightarrow> map_sum id unat (bytesToUint16 (big_endian_bytes 2 N)) = Inr N) \<and>
   (N < 2 ^ 32 \<longrightarrow> map_sum id unat (bytesToUint32 (big_endian_bytes 4 N)) = Inr N) \<and>
   (N < 2 ^ 64 \<longrightarrow> map_sum id unat (bytesToUint64 (big_endian_bytes 8 N)) = Inr N) \<and>
   (2 < length input \<longrightarrow> bytesToUint16 input = Inl ErrOverflow) \<and>
   (4 < length input \<longrightarrow> bytesToUint32 input = Inl ErrOverflow) \<and>
   (8 < length input \<longrightarrow> bytesToUint64 input = Inl ErrOverflow)"
proof -
  have a: "N < 2 ^ 16 \<Longrightarrow> map_sum id unat (bytesToUint16 (big_endian_bytes 2 N)) = Inr N"
    by (simp add: bytesToUint16_value length_big_endian_bytes big_endian_value_bytes
        unat_of_nat del: big_endian_bytes.simps)
  have b: "N < 2 ^ 32 \<Longrightarrow> map_sum id unat (bytesToUint32 (big_endian_bytes 4 N)) = Inr N"
    by (simp add: bytesToUint32_value length_big_endian_bytes big_endian_value_bytes
        unat_of_nat del: big_endian_bytes.simps)
  have c: "N < 2 ^ 64 \<Longrightarrow> map_sum id unat (bytesToUint64 (big_endian_bytes 8 N)) = Inr N"
    by (simp add: bytesToUint64_value length_big_endian_bytes big_endian_value_bytes
        unat_of_nat del: big_endian_bytes.simps)
  show ?thesis using a b c
    by (simp add: bytesToUint16_def bytesToUint32_def bytesToUint64_def)
qed



text \<open>The round trip at 258, 16777218 and 72623859790382856, and a nine-byte slice.\<close>

theorem integer_round_trip_witness:
  "(258::nat) < 2 ^ 16 \<and> big_endian_bytes 2 258 = [0x01, 0x02] \<and>
   bytesToUint16 [0x01, 0x02] = Inr 258 \<and>
   big_endian_bytes 4 16777218 = [0x01, 0x00, 0x00, 0x02] \<and>
   bytesToUint32 [0x01, 0x00, 0x00, 0x02] = Inr 16777218 \<and>
   big_endian_bytes 8 72623859790382856 = [1, 2, 3, 4, 5, 6, 7, 8] \<and>
   bytesToUint64 [1, 2, 3, 4, 5, 6, 7, 8] = Inr 72623859790382856 \<and>
   bytesToUint16 [0xff, 0x01, 0xac, 0xb4, 0x2c, 0, 0, 0, 1] = Inl ErrOverflow \<and>
   bytesToUint32 [0xff, 0x01, 0xac, 0xb4, 0x2c, 0, 0, 0, 1] = Inl ErrOverflow \<and>
   bytesToUint64 [0xff, 0x01, 0xac, 0xb4, 0x2c, 0, 0, 0, 1] = Inl ErrOverflow"
  using integer_round_trip[of 258 "[0xff, 0x01, 0xac, 0xb4, 0x2c, 0, 0, 0, 1]"]
    integer_round_trip[of 16777218 "[0xff, 0x01, 0xac, 0xb4, 0x2c, 0, 0, 0, 1]"]
    integer_round_trip[of 72623859790382856 "[0xff, 0x01, 0xac, 0xb4, 0x2c, 0, 0, 0, 1]"]
  by (simp add: big_endian_bytes_numeral bytesToUint16_def bytesToUint32_def bytesToUint64_def)


section \<open>Token sizer: lemmas and claims\<close>

lemma slice_length: "hi \<le> length input \<Longrightarrow> length (subslice input lo hi) = hi - lo"
  by (simp add: subslice_def)

lemma u32_field:
  assumes "hi \<le> length input" "hi - lo = 4"
  shows "bytesToUint32 (subslice input lo hi) = Inr (word_of_nat (big_endian_value (subslice input lo hi)))"
    and "unat (word_of_nat (big_endian_value (subslice input lo hi)) :: 32 word)
         = big_endian_value (subslice input lo hi)"
proof -
  have len: "length (subslice input lo hi) = 4" using assms by (simp add: slice_length)
  then show "bytesToUint32 (subslice input lo hi) = Inr (word_of_nat (big_endian_value (subslice input lo hi)))"
    by (simp add: bytesToUint32_value)
  have "big_endian_value (subslice input lo hi) < 256 ^ 4"
    using big_endian_value_less[of "subslice input lo hi"] len by simp
  then show "unat (word_of_nat (big_endian_value (subslice input lo hi)) :: 32 word)
         = big_endian_value (subslice input lo hi)"
    by (simp add: unat_of_nat)
qed

lemma u16_field:
  assumes "hi \<le> length input" "hi - lo = 2"
  shows "bytesToUint16 (subslice input lo hi) = Inr (word_of_nat (big_endian_value (subslice input lo hi)))"
    and "unat (word_of_nat (big_endian_value (subslice input lo hi)) :: 16 word)
         = big_endian_value (subslice input lo hi)"
proof -
  have len: "length (subslice input lo hi) = 2" using assms by (simp add: slice_length)
  then show "bytesToUint16 (subslice input lo hi) = Inr (word_of_nat (big_endian_value (subslice input lo hi)))"
    by (simp add: bytesToUint16_value)
  have "big_endian_value (subslice input lo hi) < 256 ^ 2"
    using big_endian_value_less[of "subslice input lo hi"] len by simp
  then show "unat (word_of_nat (big_endian_value (subslice input lo hi)) :: 16 word)
         = big_endian_value (subslice input lo hi)"
    by (simp add: unat_of_nat)
qed

lemma sizer_0x15:
  assumes "input ! 0 = 0x15" "15 \<le> length input"
  shows "determineTokenSize input =
    (let v = big_endian_value (subslice input 10 14) in
     if v = 4 then (26, 0, None) else if v = 16 then (38, 0, None)
     else (0, 0, Some (ErrInvalidAddr 0x15 v)))"
proof -
  let ?w = "word_of_nat (big_endian_value (subslice input 10 14)) :: 32 word"
  have f: "bytesToUint32 (subslice input 10 14) = Inr ?w"
    and u: "unat ?w = big_endian_value (subslice input 10 14)"
    using u32_field[of 14 input 10] assms by simp_all
  have "(?w = 4) = (big_endian_value (subslice input 10 14) = 4)"
       "(?w = 16) = (big_endian_value (subslice input 10 14) = 16)"
    using u by (simp_all add: word_unat_eq_iff)
  moreover have "input \<noteq> []" using assms by auto
  ultimately show ?thesis using assms f u
    by (simp add: determineTokenSize_def Let_def)
qed


lemma sizer_0x79:
  assumes "input ! 0 = 0x79" "15 \<le> length input"
  shows "determineTokenSize input =
    (let v = big_endian_value (subslice input 10 14) in
     if v = 4 then (35, 0, None) else if v = 16 then (47, 0, None)
     else (0, 0, Some (ErrInvalidAddr 0x79 v)))"
proof -
  let ?w = "word_of_nat (big_endian_value (subslice input 10 14)) :: 32 word"
  have f: "bytesToUint32 (subslice input 10 14) = Inr ?w"
    and u: "unat ?w = big_endian_value (subslice input 10 14)"
    using u32_field[of 14 input 10] assms by simp_all
  have "(?w = 4) = (big_endian_value (subslice input 10 14) = 4)"
       "(?w = 16) = (big_endian_value (subslice input 10 14) = 16)"
    using u by (simp_all add: word_unat_eq_iff)
  moreover have "input \<noteq> []" using assms by auto
  ultimately show ?thesis using assms f u
    by (simp add: determineTokenSize_def Let_def)
qed

lemma sizer_0x7a:
  assumes "input ! 0 = 0x7a" "37 \<le> length input"
  shows "determineTokenSize input =
    (let v = big_endian_value (subslice input 33 37) in
     if v = 4 then (41, 0, None) else if v = 16 then (53, 0, None)
     else (0, 0, Some (ErrInvalidAddr 0x7a v)))"
proof -
  let ?w = "word_of_nat (big_endian_value (subslice input 33 37)) :: 32 word"
  have f: "bytesToUint32 (subslice input 33 37) = Inr ?w"
    and u: "unat ?w = big_endian_value (subslice input 33 37)"
    using u32_field[of 37 input 33] assms by simp_all
  have "(?w = 4) = (big_endian_value (subslice input 33 37) = 4)"
       "(?w = 16) = (big_endian_value (subslice input 33 37) = 16)"
    using u by (simp_all add: word_unat_eq_iff)
  moreover have "input \<noteq> []" using assms by auto
  ultimately show ?thesis using assms f u
    by (simp add: determineTokenSize_def Let_def)
qed

lemma sizer_0x7b:
  assumes "input ! 0 = 0x7b" "37 \<le> length input"
  shows "determineTokenSize input =
    (let v = big_endian_value (subslice input 33 37) in
     if v = 4 then (41, 0, None) else if v = 16 then (53, 0, None)
     else (0, 0, Some (ErrInvalidAddr 0x7b v)))"
proof -
  let ?w = "word_of_nat (big_endian_value (subslice input 33 37)) :: 32 word"
  have f: "bytesToUint32 (subslice input 33 37) = Inr ?w"
    and u: "unat ?w = big_endian_value (subslice input 33 37)"
    using u32_field[of 37 input 33] assms by simp_all
  have "(?w = 4) = (big_endian_value (subslice input 33 37) = 4)"
       "(?w = 16) = (big_endian_value (subslice input 33 37) = 16)"
    using u by (simp_all add: word_unat_eq_iff)
  moreover have "input \<noteq> []" using assms by auto
  ultimately show ?thesis using assms f u
    by (simp add: determineTokenSize_def Let_def)
qed

lemma sizer_0x7f:
  assumes "input ! 0 = 0x7f" "7 \<le> length input"
  shows "determineTokenSize input =
    (let v = big_endian_value (subslice input 5 7) in
     if v = 4 then (19, 0, None) else if v = 16 then (43, 0, None)
     else (0, 0, Some (ErrInvalidAddr 0x7f v)))"
proof -
  let ?w = "word_of_nat (big_endian_value (subslice input 5 7)) :: 16 word"
  have f: "bytesToUint16 (subslice input 5 7) = Inr ?w"
    and u: "unat ?w = big_endian_value (subslice input 5 7)"
    using u16_field[of 7 input 5] assms by simp_all
  have "(?w = 4) = (big_endian_value (subslice input 5 7) = 4)"
       "(?w = 16) = (big_endian_value (subslice input 5 7) = 16)"
    using u by (simp_all add: word_unat_eq_iff)
  moreover have "input \<noteq> []" using assms by auto
  ultimately show ?thesis using assms f u
    by (simp add: determineTokenSize_def Let_def)
qed

lemma sizer_0x7c:
  assumes "input ! 0 = 0x7c" "38 \<le> length input"
  shows "determineTokenSize input =
    (let v = unat (input ! 37) in
     if v = 4 then (42, 0, None) else if v = 16 then (54, 0, None)
     else (0, 0, Some (ErrInvalidAddr 0x7c v)))"
proof -
  have "(input ! 37 = 4) = (unat (input ! 37) = 4)" "(input ! 37 = 16) = (unat (input ! 37) = 16)"
    by (simp_all add: word_unat_eq_iff)
  moreover have "input \<noteq> []" using assms by auto
  ultimately show ?thesis using assms
    by (simp add: determineTokenSize_def Let_def)
qed

text \<open>
  The sizer on an address length or address type other than 4 and 16, once the input has
  the length that the sizer's own guard asks for: the error formatted with the value
  \<open>v\<close> of the field, size 0 and no request for more bytes. For the expanded 32-bit
  subject and process (0x7a, 0x7b: field \<^verbatim>\<open>input[33:37]\<close>, guard 37), the expanded
  64-bit subject (0x7c: \<^verbatim>\<open>input[37]\<close>, guard 38) and the expanded socket (0x7f:
  \<^verbatim>\<open>input[5:7]\<close>, guard 7) the guard is the end of the field. For the expanded
  headers (0x15, 0x79) the field is \<^verbatim>\<open>input[10:14]\<close> and the guard is 15.
\<close>

lemma sizer_error_behind_guard:
  "(input ! 0 \<in> {0x15, 0x79} \<and> 15 \<le> length input \<and> v = big_endian_value (subslice input 10 14)
      \<or> input ! 0 \<in> {0x7a, 0x7b} \<and> 37 \<le> length input \<and> v = big_endian_value (subslice input 33 37)
      \<or> input ! 0 = 0x7c \<and> 38 \<le> length input \<and> v = unat (input ! 37)
      \<or> input ! 0 = 0x7f \<and> 7 \<le> length input \<and> v = big_endian_value (subslice input 5 7))
   \<Longrightarrow> v \<noteq> 4 \<Longrightarrow> v \<noteq> 16
   \<Longrightarrow> determineTokenSize input = (0, 0, Some (ErrInvalidAddr (input ! 0) v))"
  using sizer_0x15[of input] sizer_0x79[of input] sizer_0x7a[of input] sizer_0x7b[of input]
    sizer_0x7c[of input] sizer_0x7f[of input]
  by (auto simp: Let_def)

text \<open>
  Claim C7. An input that holds the whole address field, with a value other than 4 and
  16, must give a decoding error, neither a size nor a request for more bytes. The
  expanded headers 0x15 and 0x79 read the address type from \<^verbatim>\<open>input[10:14]\<close>, but
  their guard is \<^verbatim>\<open>len(input) < 15\<close>, one byte beyond the field: a 14-byte input
  whose address type is 7 is answered with a request for one more byte.
\<close>

theorem expanded_header_guard_off_by_one:
  "length [0x15, 0x00, 0x00, 0x00, 0x38, 0x0b, 0xaf, 0xc8, 0x00, 0x00, 0x00, 0x00, 0x00, 0x07] = 14 \<and>
   big_endian_value (subslice [0x15, 0x00, 0x00, 0x00, 0x38, 0x0b, 0xaf, 0xc8, 0x00, 0x00, 0x00, 0x00, 0x00, 0x07] 10 14) = 7 \<and>
   determineTokenSize [0x15, 0x00, 0x00, 0x00, 0x38, 0x0b, 0xaf, 0xc8, 0x00, 0x00, 0x00, 0x00, 0x00, 0x07] = (0, 1, None) \<and>
   big_endian_value (subslice [0x79, 0x00, 0x00, 0x00, 0x38, 0x0b, 0xaf, 0xc8, 0x00, 0x00, 0x00, 0x00, 0x00, 0x07] 10 14) = 7 \<and>
   determineTokenSize [0x79, 0x00, 0x00, 0x00, 0x38, 0x0b, 0xaf, 0xc8, 0x00, 0x00, 0x00, 0x00, 0x00, 0x07] = (0, 1, None)"
  by (simp add: determineTokenSize_def big_endian_value_def subslice_def)

text \<open>
  Claim C5. The two expanded headers differ in the width of their two timestamps only, 8
  bytes in all, which is the difference of the claim's bases 19 and 27. The sizer counts
  the version number as one byte for 0x15 and as two bytes for 0x79
  (\<^verbatim>\<open>1 + 4 + 1 + 2 + 2 + ...\<close> against \<^verbatim>\<open>1 + 4 + 2 + 2 + 2 + ...\<close>), while both
  cases read the address type at \<^verbatim>\<open>input[10:14]\<close>, behind a one-byte version. On the
  headers of the repository's tests, with address type 4, it returns 26 for 0x15, where
  the test expects 27, and 35 for 0x79: 9 bytes apart, and neither the 23 and 31 of the
  claim.
\<close>

theorem expanded_header_sizes_at_test_inputs:
  "big_endian_value (subslice [0x15, 0x00, 0x01, 0x02, 0x03, 0x00, 0x01, 0x00, 0x01, 0x00, 0x00, 0x00, 0x00, 0x04, 0x03, 0x00, 0x01, 0x02, 0x03, 0x00, 0x01, 0x02, 0x03, 0x00, 0x01, 0x02, 0x03] 10 14) = 4 \<and>
   determineTokenSize [0x15, 0x00, 0x01, 0x02, 0x03, 0x00, 0x01, 0x00, 0x01, 0x00, 0x00, 0x00, 0x00, 0x04, 0x03, 0x00, 0x01, 0x02, 0x03, 0x00, 0x01, 0x02, 0x03, 0x00, 0x01, 0x02, 0x03] = (26, 0, None) \<and>
   big_endian_value (subslice [0x79, 0x00, 0x01, 0x02, 0x03, 0x00, 0x01, 0x00, 0x01, 0x00, 0x00, 0x00, 0x00, 0x04, 0x03, 0x00, 0x01, 0x02, 0x03, 0x00, 0x01, 0x02, 0x03, 0x04, 0x05, 0x06, 0x07, 0x00, 0x01, 0x02, 0x03, 0x04, 0x05, 0x06, 0x07] 10 14) = 4 \<and>
   determineTokenSize [0x79, 0x00, 0x01, 0x02, 0x03, 0x00, 0x01, 0x00, 0x01, 0x00, 0x00, 0x00, 0x00, 0x04, 0x03, 0x00, 0x01, 0x02, 0x03, 0x00, 0x01, 0x02, 0x03, 0x04, 0x05, 0x06, 0x07, 0x00, 0x01, 0x02, 0x03, 0x04, 0x05, 0x06, 0x07] = (35, 0, None)"
  by (simp add: determineTokenSize_def bytesToUint32_def big_endian_value_def subslice_def)

text \<open>The sizes of the fixed-size tokens, the process token 0x77 apart.\<close>

lemma fixed_token_sizes:
  "determineTokenSize [0x13] = (7, 0, None)"
  "determineTokenSize [0x14] = (18, 0, None)"
  "determineTokenSize [0x22] = (6, 0, None)"
  "determineTokenSize [0x24] = (37, 0, None)"
  "determineTokenSize [0x26] = (37, 0, None)"
  "determineTokenSize [0x27] = (6, 0, None)"
  "determineTokenSize [0x2a] = (5, 0, None)"
  "determineTokenSize [0x2b] = (21, 0, None)"
  "determineTokenSize [0x2c] = (3, 0, None)"
  "determineTokenSize [0x2e] = (9, 0, None)"
  "determineTokenSize [0x2f] = (5, 0, None)"
  "determineTokenSize [0x32] = (29, 0, None)"
  "determineTokenSize [0x3e] = (29, 0, None)"
  "determineTokenSize [0x52] = (9, 0, None)"
  "determineTokenSize [0x72] = (10, 0, None)"
  "determineTokenSize [0x73] = (33, 0, None)"
  "determineTokenSize [0x74] = (26, 0, None)"
  "determineTokenSize [0x75] = (41, 0, None)"
  "determineTokenSize [0x7e] = (18, 0, None)"
  "determineTokenSize [0x80] = (9, 0, None)"
  "determineTokenSize [0x81] = (21, 0, None)"
  "determineTokenSize [0x82] = (9, 0, None)"
  by (simp_all add: determineTokenSize_def)

text \<open>
  Claim C3. The table of fixed sizes gives 41 bytes for the 64-bit process token 0x77,
  as the struct \<^verbatim>\<open>ProcessToken64bit\<close> documents (an 8-byte terminal port and a
  4-byte address) and as the sizer returns for its sibling, the 64-bit subject token
  0x75. The sizer adds \<^verbatim>\<open>8 + 8\<close> for 0x77 and returns 45.
\<close>

theorem process64_size:
  "determineTokenSize [0x77] = (45, 0, None) \<and> determineTokenSize [0x75] = (41, 0, None)"
  by (simp add: determineTokenSize_def)

text \<open>The expanded 64-bit subject token 0x7c: 42 and 54 bytes.\<close>

lemma expanded_subject64_sizes:
  "input ! 0 = 0x7c \<Longrightarrow> 38 \<le> length input \<Longrightarrow>
   (input ! 37 = 4 \<longrightarrow> determineTokenSize input = (42, 0, None)) \<and>
   (input ! 37 = 16 \<longrightarrow> determineTokenSize input = (54, 0, None))"
  using sizer_0x7c[of input] by (auto simp: Let_def)

text \<open>
  Claim C6. The sizer has no case for the expanded 64-bit process token 0x7d, the ID
  that the struct \<^verbatim>\<open>ExpandedProcessToken64bit\<close> documents: a 42-byte token with
  address length 4 at offset 37 ends in the \<^verbatim>\<open>default\<close> branch, where the claim
  expects size 42.
\<close>

theorem expanded_process64_unsized:
  "determineTokenSize [0x7d, 0x00, 0x01, 0x02, 0x03, 0x00, 0x01, 0x02, 0x03, 0x00, 0x01, 0x02, 0x03, 0x00, 0x01, 0x02, 0x03, 0x00, 0x01, 0x02, 0x03, 0x00, 0x01, 0x02, 0x03, 0x00, 0x01, 0x02, 0x03, 0x00, 0x01, 0x02, 0x03, 0x04, 0x05, 0x06, 0x07, 0x04, 0x00, 0x01, 0x02, 0x03]
     = (0, 0, Some (ErrUnknownSize 0x7d))"
  by (simp add: determineTokenSize_def)

section \<open>Token decoder: lemmas and claims\<close>

text \<open>Field reads that stay inside the buffer succeed and return the big-endian value.\<close>

lemma u16At_value:
  "lo \<le> hi \<Longrightarrow> hi \<le> length b \<Longrightarrow> hi - lo \<le> 2 \<Longrightarrow>
   u16At b lo hi = Inr (word_of_nat (big_endian_value (subslice b lo hi)))"
  by (simp add: u16At_def sliceChk_def bnd_def bytesToUint16_value slice_length)

lemma u32At_value:
  "lo \<le> hi \<Longrightarrow> hi \<le> length b \<Longrightarrow> hi - lo \<le> 4 \<Longrightarrow>
   u32At b lo hi = Inr (word_of_nat (big_endian_value (subslice b lo hi)))"
  by (simp add: u32At_def sliceChk_def bnd_def bytesToUint32_value slice_length)

lemma u64At_value:
  "lo \<le> hi \<Longrightarrow> hi \<le> length b \<Longrightarrow> hi - lo \<le> 8 \<Longrightarrow>
   u64At b lo hi = Inr (word_of_nat (big_endian_value (subslice b lo hi)))"
  by (simp add: u64At_def sliceChk_def bnd_def bytesToUint64_value slice_length)

lemma ipv4At_value:
  "i + 3 < length b \<Longrightarrow>
   ipv4At b i = Inr (IPv4 (b ! i) (b ! (i + 1)) (b ! (i + 2)) (b ! (i + 3)))"
  by (simp add: ipv4At_def byteAt_def bnd_def)

lemma bnd_Inr: "bnd (Inr v) f = f v"
  by (simp add: bnd_def)

lemmas decode_simps = u16At_value u32At_value u64At_value ipv4At_value bnd_Inr

lemma decode_0x13:
  "length b = 7 \<Longrightarrow> b ! 0 = 0x13 \<Longrightarrow> \<exists>tok. processBuffer b = Inr tok \<and> TokenID tok = 0x13"
  by (cases b) (simp_all add: processBuffer_def decode_simps sliceChk_def slice_length byteAt_def)

lemma decode_0x24:
  "length b = 37 \<Longrightarrow> b ! 0 = 0x24 \<Longrightarrow> \<exists>tok. processBuffer b = Inr tok \<and> TokenID tok = 0x24"
  by (cases b) (simp_all add: processBuffer_def decode_simps sliceChk_def slice_length byteAt_def)

lemma decode_0x27:
  "length b = 6 \<Longrightarrow> b ! 0 = 0x27 \<Longrightarrow> \<exists>tok. processBuffer b = Inr tok \<and> TokenID tok = 0x27"
  by (cases b) (simp_all add: processBuffer_def decode_simps sliceChk_def slice_length byteAt_def)

lemma decode_0x2c:
  "length b = 3 \<Longrightarrow> b ! 0 = 0x2c \<Longrightarrow> \<exists>tok. processBuffer b = Inr tok \<and> TokenID tok = 0x2c"
  by (cases b) (simp_all add: processBuffer_def decode_simps sliceChk_def slice_length byteAt_def)

lemma decode_0x2e:
  "length b = 9 \<Longrightarrow> b ! 0 = 0x2e \<Longrightarrow> \<exists>tok. processBuffer b = Inr tok \<and> TokenID tok = 0x2e"
  by (cases b) (simp_all add: processBuffer_def decode_simps sliceChk_def slice_length byteAt_def)

lemma decode_0x3e:
  "length b = 29 \<Longrightarrow> b ! 0 = 0x3e \<Longrightarrow> \<exists>tok. processBuffer b = Inr tok \<and> TokenID tok = 0x3e"
  by (cases b) (simp_all add: processBuffer_def decode_simps sliceChk_def slice_length byteAt_def)

lemma decode_0x73:
  "length b = 33 \<Longrightarrow> b ! 0 = 0x73 \<Longrightarrow> \<exists>tok. processBuffer b = Inr tok \<and> TokenID tok = 0x73"
  by (cases b) (simp_all add: processBuffer_def decode_simps sliceChk_def slice_length byteAt_def)

lemma decode_0x80:
  "length b = 9 \<Longrightarrow> b ! 0 = 0x80 \<Longrightarrow> \<exists>tok. processBuffer b = Inr tok \<and> TokenID tok = 0x80"
  by (cases b) (simp_all add: processBuffer_def decode_simps sliceChk_def slice_length byteAt_def)

lemma decode_0x81:
  "length b = 21 \<Longrightarrow> b ! 0 = 0x81 \<Longrightarrow> \<exists>tok. processBuffer b = Inr tok \<and> TokenID tok = 0x81"
  by (cases b) (simp_all add: processBuffer_def decode_simps sliceChk_def slice_length byteAt_def)

lemma decode_0x82:
  "length b = 9 \<Longrightarrow> b ! 0 = 0x82 \<Longrightarrow> \<exists>tok. processBuffer b = Inr tok \<and> TokenID tok = 0x82"
  by (cases b) (simp_all add: processBuffer_def decode_simps sliceChk_def slice_length byteAt_def)

lemma decode_0x14:
  "length b = 18 \<Longrightarrow> b ! 0 = 0x14 \<Longrightarrow> \<exists>tok. processBuffer b = Inr tok \<and> TokenID tok = 0x14"
  by (cases b) (simp_all add: processBuffer_def ParseHeaderToken32bit_def bnd_Inr
      bytesToUint32_value bytesToUint16_value slice_length)

lemma decode_0x52:
  "length b = 9 \<Longrightarrow> b ! 0 = 0x52 \<Longrightarrow> \<exists>tok. processBuffer b = Inr tok \<and> TokenID tok = 0x52"
  by (cases b) (simp_all add: processBuffer_def decode_simps sliceChk_def split: prod.splits)

lemma decode_0x7a:
  "b ! 0 = 0x7a \<Longrightarrow>
   length b = 41 \<and> big_endian_value (subslice b 33 37) = 4
     \<or> length b = 53 \<and> big_endian_value (subslice b 33 37) = 16 \<Longrightarrow>
   \<exists>tok. processBuffer b = Inr tok \<and> TokenID tok = 0x7a"
  by (cases b) (auto simp add: processBuffer_def decode_simps sliceChk_def)

lemma decode_0x7b:
  "b ! 0 = 0x7b \<Longrightarrow>
   length b = 41 \<and> big_endian_value (subslice b 33 37) = 4
     \<or> length b = 53 \<and> big_endian_value (subslice b 33 37) = 16 \<Longrightarrow>
   \<exists>tok. processBuffer b = Inr tok \<and> TokenID tok = 0x7b"
  by (cases b) (auto simp add: processBuffer_def decode_simps sliceChk_def)

lemma unat_length16_plus:
  "v + 2 < 65536 \<Longrightarrow> unat ((word_of_nat v :: 16 word) + 2) = v + 2"
  "v + 7 < 65536 \<Longrightarrow> unat ((word_of_nat v :: 16 word) + 7) = v + 7"
proof -
  have "(word_of_nat v :: 16 word) + 2 = word_of_nat (v + 2)"
       "(word_of_nat v :: 16 word) + 7 = word_of_nat (v + 7)"
    by simp_all
  then show "v + 2 < 65536 \<Longrightarrow> unat ((word_of_nat v :: 16 word) + 2) = v + 2"
    "v + 7 < 65536 \<Longrightarrow> unat ((word_of_nat v :: 16 word) + 7) = v + 7"
    by (simp_all only: unat_of_nat) simp_all
qed

lemma decode_0x23:
  "b ! 0 = 0x23 \<Longrightarrow> length b = 3 + big_endian_value (subslice b 1 3) \<Longrightarrow>
   4 \<le> length b \<Longrightarrow> length b \<le> 65536 \<Longrightarrow>
   \<exists>tok. processBuffer b = Inr tok \<and> TokenID tok = 0x23"
  by (cases b) (simp_all add: processBuffer_def decode_simps sliceChk_def unat_length16_plus)

lemma decode_0x28:
  "b ! 0 = 0x28 \<Longrightarrow> length b = 3 + big_endian_value (subslice b 1 3) \<Longrightarrow>
   4 \<le> length b \<Longrightarrow> length b \<le> 65536 \<Longrightarrow>
   \<exists>tok. processBuffer b = Inr tok \<and> TokenID tok = 0x28"
  by (cases b) (simp_all add: processBuffer_def decode_simps sliceChk_def unat_length16_plus)

lemma decode_0x60:
  "b ! 0 = 0x60 \<Longrightarrow> length b = 3 + big_endian_value (subslice b 1 3) \<Longrightarrow>
   4 \<le> length b \<Longrightarrow> length b \<le> 65536 \<Longrightarrow>
   \<exists>tok. processBuffer b = Inr tok \<and> TokenID tok = 0x60"
  by (cases b) (simp_all add: processBuffer_def decode_simps sliceChk_def unat_length16_plus)

lemma decode_0x2d:
  "b ! 0 = 0x2d \<Longrightarrow> length b = 8 + big_endian_value (subslice b 6 8) \<Longrightarrow>
   9 \<le> length b \<Longrightarrow> length b \<le> 65536 \<Longrightarrow>
   \<exists>tok. processBuffer b = Inr tok \<and> TokenID tok = 0x2d"
  by (cases b) (simp_all add: processBuffer_def decode_simps sliceChk_def byteAt_def
      unat_length16_plus)

text \<open>
  What the sizer's answer \<open>(size, 0, nil)\<close> says about the buffer, for the token IDs
  the decoder knows.
\<close>

lemma determineTokenSize_Nil: "determineTokenSize [] = (0, 1, None)"
  by (simp add: determineTokenSize_def)

lemma sized_prefix:
  assumes "determineTokenSize (take n b) = (length b, 0, None)"
  shows "take n b \<noteq> []" and "take n b ! 0 = b ! 0"
proof -
  show ne: "take n b \<noteq> []"
  proof
    assume "take n b = []"
    then have "determineTokenSize (take n b) = (0, 1, None)"
      by (simp only: determineTokenSize_Nil)
    then show False using assms by simp
  qed
  then have "0 < n" by (cases n) auto
  then show "take n b ! 0 = b ! 0" by simp
qed

lemma subslice_take:
  "hi \<le> length (take n b) \<Longrightarrow> subslice (take n b) lo hi = subslice b lo hi"
  by (auto simp add: subslice_def drop_take min_def split: if_splits)

lemma sizer_fixed:
  assumes "p \<noteq> []"
  shows "p ! 0 = 0x13 \<Longrightarrow> determineTokenSize p = (7, 0, None)"
    "p ! 0 = 0x14 \<Longrightarrow> determineTokenSize p = (18, 0, None)"
    "p ! 0 = 0x24 \<Longrightarrow> determineTokenSize p = (37, 0, None)"
    "p ! 0 = 0x27 \<Longrightarrow> determineTokenSize p = (6, 0, None)"
    "p ! 0 = 0x2c \<Longrightarrow> determineTokenSize p = (3, 0, None)"
    "p ! 0 = 0x2e \<Longrightarrow> determineTokenSize p = (9, 0, None)"
    "p ! 0 = 0x3e \<Longrightarrow> determineTokenSize p = (29, 0, None)"
    "p ! 0 = 0x52 \<Longrightarrow> determineTokenSize p = (9, 0, None)"
    "p ! 0 = 0x73 \<Longrightarrow> determineTokenSize p = (33, 0, None)"
    "p ! 0 = 0x80 \<Longrightarrow> determineTokenSize p = (9, 0, None)"
    "p ! 0 = 0x81 \<Longrightarrow> determineTokenSize p = (21, 0, None)"
    "p ! 0 = 0x82 \<Longrightarrow> determineTokenSize p = (9, 0, None)"
  using assms by (simp_all add: determineTokenSize_def)

lemma sizer_short:
  assumes "p \<noteq> []"
  shows "p ! 0 = 0x7a \<Longrightarrow> length p < 37 \<Longrightarrow> determineTokenSize p = (0, 37 - length p, None)"
    "p ! 0 = 0x7b \<Longrightarrow> length p < 37 \<Longrightarrow> determineTokenSize p = (0, 37 - length p, None)"
    "p ! 0 = 0x23 \<Longrightarrow> length p < 3 \<Longrightarrow> determineTokenSize p = (0, 3 - length p, None)"
    "p ! 0 = 0x28 \<Longrightarrow> length p < 3 \<Longrightarrow> determineTokenSize p = (0, 3 - length p, None)"
    "p ! 0 = 0x60 \<Longrightarrow> length p < 3 \<Longrightarrow> determineTokenSize p = (0, 3 - length p, None)"
    "p ! 0 = 0x2d \<Longrightarrow> length p < 8 \<Longrightarrow> determineTokenSize p = (0, 8 - length p, None)"
  using assms by (simp_all add: determineTokenSize_def)

lemma sizer_string:
  assumes "p \<noteq> []"
  shows "p ! 0 = 0x23 \<Longrightarrow> 3 \<le> length p \<Longrightarrow>
       determineTokenSize p = (3 + big_endian_value (subslice p 1 3), 0, None)"
    "p ! 0 = 0x28 \<Longrightarrow> 3 \<le> length p \<Longrightarrow>
       determineTokenSize p = (3 + big_endian_value (subslice p 1 3), 0, None)"
    "p ! 0 = 0x60 \<Longrightarrow> 3 \<le> length p \<Longrightarrow>
       determineTokenSize p = (3 + big_endian_value (subslice p 1 3), 0, None)"
    "p ! 0 = 0x2d \<Longrightarrow> 8 \<le> length p \<Longrightarrow>
       determineTokenSize p = (8 + big_endian_value (subslice p 6 8), 0, None)"
  using assms u16_field[of 3 p 1] u16_field[of 8 p 6]
  by (simp_all add: determineTokenSize_def)

lemma sized_expanded32:
  assumes "p ! 0 = 0x7a \<or> p ! 0 = 0x7b" "p \<noteq> []" "determineTokenSize p = (sz, 0, None)"
  shows "37 \<le> length p \<and>
         (sz = 41 \<and> big_endian_value (subslice p 33 37) = 4
          \<or> sz = 53 \<and> big_endian_value (subslice p 33 37) = 16)"
proof (cases "length p < 37")
  case True
  then have "determineTokenSize p = (0, 37 - length p, None)"
    using assms(1) sizer_short(1,2)[OF assms(2)] by blast
  then show ?thesis using assms(3) True by simp
next
  case False
  then have len: "37 \<le> length p" by simp
  let ?v = "big_endian_value (subslice p 33 37)"
  have "determineTokenSize p =
    (if ?v = 4 then (41, 0, None) else if ?v = 16 then (53, 0, None)
     else (0, 0, Some (ErrInvalidAddr (p ! 0) ?v)))"
    using assms(1) sizer_0x7a[OF _ len] sizer_0x7b[OF _ len] by (auto simp: Let_def)
  then show ?thesis using assms(3) len by (simp split: if_splits)
qed

lemma sized_string:
  assumes "p ! 0 = 0x23 \<or> p ! 0 = 0x28 \<or> p ! 0 = 0x60" "p \<noteq> []"
    "determineTokenSize p = (sz, 0, None)"
  shows "3 \<le> length p \<and> sz = 3 + big_endian_value (subslice p 1 3)"
proof (cases "length p < 3")
  case True
  then have "determineTokenSize p = (0, 3 - length p, None)"
    using assms(1) sizer_short(3,4,5)[OF assms(2)] by blast
  then show ?thesis using assms(3) True by simp
next
  case False
  then have len: "3 \<le> length p" by simp
  have "determineTokenSize p = (3 + big_endian_value (subslice p 1 3), 0, None)"
    using assms(1) sizer_string(1,2,3)[OF assms(2) _ len] by blast
  then show ?thesis using assms(3) len by simp
qed

lemma sized_arg32:
  assumes "p ! 0 = 0x2d" "p \<noteq> []" "determineTokenSize p = (sz, 0, None)"
  shows "8 \<le> length p \<and> sz = 8 + big_endian_value (subslice p 6 8)"
proof (cases "length p < 8")
  case True
  then have "determineTokenSize p = (0, 8 - length p, None)"
    using assms(1) sizer_short(6)[OF assms(2)] by blast
  then show ?thesis using assms(3) True by simp
next
  case False
  then have len: "8 \<le> length p" by simp
  have "determineTokenSize p = (8 + big_endian_value (subslice p 6 8), 0, None)"
    using assms(1) sizer_string(4)[OF assms(2) _ len] by blast
  then show ?thesis using assms(3) len by simp
qed

text \<open>
  Claim C1, as amended. Let the sizer, called on the first \<open>n\<close> bytes of the buffer
  \<open>b\<close>, report the length of \<open>b\<close> as the token size. For every token ID the decoder
  has a case for (0x13, 0x14, 0x24, 0x27, 0x2c, 0x2e, 0x3e, 0x52, 0x73, 0x7a, 0x7b, 0x80,
  0x81, 0x82, and the string tokens 0x23, 0x28, 0x60, 0x2d with a declared length of at
  least 1 and a buffer of at most 65536 bytes), the decoder returns a token and no error,
  and the token's \<open>TokenID\<close> is the first byte of the buffer.
\<close>

theorem decoder_totality:
  assumes sized: "determineTokenSize (take n b) = (length b, 0, None)"
    and known: "b ! 0 \<in> {0x13, 0x14, 0x24, 0x27, 0x2c, 0x2e, 0x3e, 0x52, 0x73, 0x7a, 0x7b,
                          0x80, 0x81, 0x82}
       \<or> b ! 0 \<in> {0x23, 0x28, 0x60} \<and> 4 \<le> length b \<and> length b \<le> 65536
       \<or> b ! 0 = 0x2d \<and> 9 \<le> length b \<and> length b \<le> 65536"
  shows "\<exists>tok. processBuffer b = Inr tok \<and> TokenID tok = b ! 0"
proof -
  let ?p = "take n b"
  note p = sized_prefix[OF sized]
  note fixed = sizer_fixed[OF p(1), unfolded p(2) sized]
  consider (t13) "b ! 0 = 0x13" | (t14) "b ! 0 = 0x14" | (t24) "b ! 0 = 0x24" | (t27) "b ! 0 = 0x27" | (t2c) "b ! 0 = 0x2c" | (t2e) "b ! 0 = 0x2e" | (t3e) "b ! 0 = 0x3e" | (t52) "b ! 0 = 0x52" | (t73) "b ! 0 = 0x73" | (t80) "b ! 0 = 0x80" | (t81) "b ! 0 = 0x81" | (t82) "b ! 0 = 0x82"
    | (expanded) "b ! 0 = 0x7a \<or> b ! 0 = 0x7b"
    | (string) "b ! 0 \<in> {0x23, 0x28, 0x60}" "4 \<le> length b" "length b \<le> 65536"
    | (arg) "b ! 0 = 0x2d" "9 \<le> length b" "length b \<le> 65536"
    using known by auto
  then show ?thesis
  proof cases
    case t13
    then show ?thesis using fixed(1) decode_0x13[of b] by simp
  next
    case t14
    then show ?thesis using fixed(2) decode_0x14[of b] by simp
  next
    case t24
    then show ?thesis using fixed(3) decode_0x24[of b] by simp
  next
    case t27
    then show ?thesis using fixed(4) decode_0x27[of b] by simp
  next
    case t2c
    then show ?thesis using fixed(5) decode_0x2c[of b] by simp
  next
    case t2e
    then show ?thesis using fixed(6) decode_0x2e[of b] by simp
  next
    case t3e
    then show ?thesis using fixed(7) decode_0x3e[of b] by simp
  next
    case t52
    then show ?thesis using fixed(8) decode_0x52[of b] by simp
  next
    case t73
    then show ?thesis using fixed(9) decode_0x73[of b] by simp
  next
    case t80
    then show ?thesis using fixed(10) decode_0x80[of b] by simp
  next
    case t81
    then show ?thesis using fixed(11) decode_0x81[of b] by simp
  next
    case t82
    then show ?thesis using fixed(12) decode_0x82[of b] by simp
  next
    case expanded
    have e: "37 \<le> length ?p \<and>
         (length b = 41 \<and> big_endian_value (subslice ?p 33 37) = 4
          \<or> length b = 53 \<and> big_endian_value (subslice ?p 33 37) = 16)"
      using sized_expanded32[of ?p "length b"] expanded p sized by simp
    then have "subslice ?p 33 37 = subslice b 33 37" by (simp only: subslice_take)
    with e expanded show ?thesis using decode_0x7a[of b] decode_0x7b[of b] by auto
  next
    case string
    have e: "3 \<le> length ?p \<and> length b = 3 + big_endian_value (subslice ?p 1 3)"
      using sized_string[of ?p "length b"] string(1) p sized by simp
    then have "subslice ?p 1 3 = subslice b 1 3" by (simp only: subslice_take)
    with e string show ?thesis using decode_0x23[of b] decode_0x28[of b] decode_0x60[of b] by auto
  next
    case arg
    have e: "8 \<le> length ?p \<and> length b = 8 + big_endian_value (subslice ?p 6 8)"
      using sized_arg32[of ?p "length b"] arg(1) p sized by simp
    then have "subslice ?p 6 8 = subslice b 6 8" by (simp only: subslice_take)
    with e arg show ?thesis using decode_0x2d[of b] by auto
  qed
qed


text \<open>A trailer, the text token "hello" and an expanded 32-bit subject token.\<close>

theorem decoder_totality_witness:
  "determineTokenSize (take 1 [0x13, 0xb1, 0x05, 0x00, 0x00, 0x00, 0x38]) = (7, 0, None) \<and>
   (\<exists>tok. processBuffer [0x13, 0xb1, 0x05, 0x00, 0x00, 0x00, 0x38] = Inr tok \<and> TokenID tok = 0x13) \<and>
   determineTokenSize (take 3 [0x28, 0x00, 0x06, 0x68, 0x65, 0x6c, 0x6c, 0x6f, 0x00]) = (9, 0, None) \<and>
   (\<exists>tok. processBuffer [0x28, 0x00, 0x06, 0x68, 0x65, 0x6c, 0x6c, 0x6f, 0x00] = Inr tok \<and> TokenID tok = 0x28) \<and>
   determineTokenSize (take 37 [0x7a, 0x00, 0x01, 0x02, 0x03, 0x00, 0x01, 0x02, 0x03, 0x00, 0x01, 0x02, 0x03, 0x00, 0x01, 0x02, 0x03, 0x00, 0x01, 0x02, 0x03, 0x00, 0x01, 0x02, 0x03, 0x00, 0x01, 0x02, 0x03, 0x00, 0x01, 0x02, 0x03, 0x00, 0x00, 0x00, 0x04, 0x0a, 0x00, 0x00, 0x01]) = (41, 0, None) \<and>
   (\<exists>tok. processBuffer [0x7a, 0x00, 0x01, 0x02, 0x03, 0x00, 0x01, 0x02, 0x03, 0x00, 0x01, 0x02, 0x03, 0x00, 0x01, 0x02, 0x03, 0x00, 0x01, 0x02, 0x03, 0x00, 0x01, 0x02, 0x03, 0x00, 0x01, 0x02, 0x03, 0x00, 0x01, 0x02, 0x03, 0x00, 0x00, 0x00, 0x04, 0x0a, 0x00, 0x00, 0x01] = Inr tok \<and> TokenID tok = 0x7a)"
  using decoder_totality[of 1 "[0x13, 0xb1, 0x05, 0x00, 0x00, 0x00, 0x38]"]
    decoder_totality[of 3 "[0x28, 0x00, 0x06, 0x68, 0x65, 0x6c, 0x6c, 0x6f, 0x00]"]
    decoder_totality[of 37 "[0x7a, 0x00, 0x01, 0x02, 0x03, 0x00, 0x01, 0x02, 0x03, 0x00, 0x01, 0x02, 0x03, 0x00, 0x01, 0x02, 0x03, 0x00, 0x01, 0x02, 0x03, 0x00, 0x01, 0x02, 0x03, 0x00, 0x01, 0x02, 0x03, 0x00, 0x01, 0x02, 0x03, 0x00, 0x00, 0x00, 0x04, 0x0a, 0x00, 0x00, 0x01]"]
  by (simp add: determineTokenSize_def bytesToUint16_def bytesToUint32_def subslice_def)

text \<open>
  The 64-bit header token 0x74 is in the registry and the sizer gives it 26 bytes; the
  decoder has no case for it and returns the error of its \<^verbatim>\<open>default\<close> branch.
\<close>

theorem decoder_totality_counterexample:
  "determineTokenSize (take 1 [0x74, 0x00, 0x00, 0x00, 0x38, 0x0b, 0xaf, 0xc8, 0x00, 0x00, 0x00, 0x00, 0x00, 0x00, 0x5a, 0x9a, 0xc2, 0xe6, 0x00, 0x00, 0x00, 0x00, 0x00, 0x03, 0x01, 0x28])
     = (length [0x74, 0x00, 0x00, 0x00, 0x38, 0x0b, 0xaf, 0xc8, 0x00, 0x00, 0x00, 0x00, 0x00, 0x00, 0x5a, 0x9a, 0xc2, 0xe6, 0x00, 0x00, 0x00, 0x00, 0x00, 0x03, 0x01, 0x28], 0, None) \<and>
   processBuffer [0x74, 0x00, 0x00, 0x00, 0x38, 0x0b, 0xaf, 0xc8, 0x00, 0x00, 0x00, 0x00, 0x00, 0x00, 0x5a, 0x9a, 0xc2, 0xe6, 0x00, 0x00, 0x00, 0x00, 0x00, 0x03, 0x01, 0x28] = Inl (ErrNewTokenID 0x74)"
  by (simp add: determineTokenSize_def processBuffer_def)

text \<open>The exit token: \<open>Status\<close> is the two bytes at offsets 1..3, widened.\<close>

lemma exit_token_status:
  "length b = 9 \<Longrightarrow> b ! 0 = 0x52 \<Longrightarrow>
   \<exists>rv. processBuffer b
     = Inr (ExitToken 0x52 (word_of_nat (big_endian_value (subslice b 1 3))) rv)"
  by (cases b) (simp_all add: processBuffer_def decode_simps sliceChk_def split: prod.splits)

text \<open>
  Claim C8. \<open>ReturnValue\<close> is documented as the 4-byte return value of the process,
  but the decoder passes the bytes at offsets 3..7 to \<^verbatim>\<open>binary.Varint\<close>, which reads
  a variable-length zig-zag number: the bytes \<open>00 00 00 01\<close> (big-endian 1) and
  \<open>ff ff ff ff\<close> (two's complement -1) both decode to 0.
\<close>

theorem exit_return_value:
  "processBuffer [0x52, 0x00, 0x00, 0x00, 0x00, 0x00, 0x01, 0x00, 0x00] = Inr (ExitToken 0x52 0 0) \<and>
   sint (word_of_nat (big_endian_value (subslice [0x52, 0x00, 0x00, 0x00, 0x00, 0x00, 0x01, 0x00, 0x00] 3 7)) :: 32 word) = 1 \<and>
   processBuffer [0x52, 0x00, 0x00, 0xff, 0xff, 0xff, 0xff, 0x00, 0x00] = Inr (ExitToken 0x52 0 0) \<and>
   sint (word_of_nat (big_endian_value (subslice [0x52, 0x00, 0x00, 0xff, 0xff, 0xff, 0xff, 0x00, 0x00] 3 7)) :: 32 word) = - 1"
  by (simp add: processBuffer_def u32At_def sliceChk_def subslice_def bnd_def bytesToUint32_def
      Varint_def Uvarint_def big_endian_value_def)

text \<open>
  Claim C9. \<open>RecordByteCount\<close> is documented as a 4-byte field and the sizer counts 4
  bytes for it, but the decoder reads \<^verbatim>\<open>tokenBuffer[3:6]\<close>, three bytes: a trailer
  with byte count 56 at offsets 3..7 decodes to byte count 0.
\<close>

theorem trailer_record_byte_count:
  "processBuffer [0x13, 0xb1, 0x05, 0x00, 0x00, 0x00, 0x38] = Inr (TrailerToken 0x13 0xb105 0) \<and>
   big_endian_value (subslice [0x13, 0xb1, 0x05, 0x00, 0x00, 0x00, 0x38] 3 7) = 56"
  by (simp add: processBuffer_def u16At_def u32At_def sliceChk_def subslice_def bnd_def
      bytesToUint16_def bytesToUint32_def big_endian_value_def)

section \<open>Record framer: lemmas and claims\<close>

text \<open>
  The loop equation is unfolded by hand: one step on a trailer, one on any other token
  followed by a successful read, one on any other token followed by a failed read.
\<close>

declare recordLoop.simps [simp del]

lemma readsTokens_Cons:
  "readsTokens input (t # ts) input' =
   (\<exists>input1. TokenFromByteInput input = (Inr t, input1) \<and> readsTokens input1 ts input')"
  by (auto split: prod.splits sum.splits)

lemma recordLoop_trailer:
  "isTrailerToken t \<Longrightarrow> recordLoop rec t input = ((rec, None), input)"
  by (simp add: recordLoop.simps)

lemma recordLoop_next:
  "\<not> isTrailerToken t \<Longrightarrow> TokenFromByteInput input = (Inr t', input1) \<Longrightarrow>
   recordLoop rec t input = recordLoop (rec\<lparr>Tokens := Tokens rec @ [t]\<rparr>) t' input1"
  by (simp add: recordLoop.simps[of rec t input])

lemma recordLoop_fail:
  "\<not> isTrailerToken t \<Longrightarrow> TokenFromByteInput input = (Inl err, input1) \<Longrightarrow>
   recordLoop rec t input = ((rec\<lparr>Tokens := Tokens rec @ [t]\<rparr>, Some err), input1)"
  by (simp add: recordLoop.simps[of rec t input])

text \<open>
  The loop run to its end, in both directions, and the loop stopped by an error: the
  record grows by the tokens read before the trailer or before the error, in their order.
\<close>

lemma recordLoop_complete:
  "\<forall>x\<in>set ts. \<not> isTrailerToken x \<Longrightarrow> isTrailerToken tr \<Longrightarrow> t # rd = ts @ [tr] \<Longrightarrow>
   readsTokens input rd input' \<Longrightarrow>
   recordLoop rec t input = ((rec\<lparr>Tokens := Tokens rec @ ts\<rparr>, None), input')"
proof (induction ts arbitrary: rec t rd input)
  case Nil
  then show ?case by (simp add: recordLoop_trailer)
next
  case (Cons x ts)
  from Cons.prems(3) have t: "t = x" and rd: "rd = ts @ [tr]" by simp_all
  obtain t' rd' where rd': "t' # rd' = ts @ [tr]" by (cases "ts @ [tr]") auto
  have "readsTokens input (t' # rd') input'"
    using Cons.prems(4) rd rd' by simp
  then obtain input1 where
    T: "TokenFromByteInput input = (Inr t', input1)" and R: "readsTokens input1 rd' input'"
    using readsTokens_Cons[THEN iffD1] by blast
  have "recordLoop rec t input = recordLoop (rec\<lparr>Tokens := Tokens rec @ [t]\<rparr>) t' input1"
    using Cons.prems(1) t T by (simp add: recordLoop_next)
  also have "\<dots> = (((rec\<lparr>Tokens := Tokens rec @ [t]\<rparr>)\<lparr>Tokens := Tokens (rec\<lparr>Tokens := Tokens rec @ [t]\<rparr>) @ ts\<rparr>, None), input')"
    using Cons.IH[OF _ Cons.prems(2) rd' R] Cons.prems(1) by simp
  finally show ?case using t by simp
qed

lemma recordLoop_error:
  "\<forall>x\<in>set (t # ts). \<not> isTrailerToken x \<Longrightarrow> readsTokens input ts input1 \<Longrightarrow>
   TokenFromByteInput input1 = (Inl err, input') \<Longrightarrow>
   recordLoop rec t input = ((rec\<lparr>Tokens := Tokens rec @ t # ts\<rparr>, Some err), input')"
proof (induction ts arbitrary: rec t input)
  case Nil
  then show ?case by (simp add: recordLoop_fail)
next
  case (Cons t' ts)
  from Cons.prems(2) obtain input2 where
    T: "TokenFromByteInput input = (Inr t', input2)" and R: "readsTokens input2 ts input1"
    using readsTokens_Cons[THEN iffD1] by blast
  have "recordLoop rec t input = recordLoop (rec\<lparr>Tokens := Tokens rec @ [t]\<rparr>) t' input2"
    using Cons.prems(1) T by (simp add: recordLoop_next)
  also have "\<dots> = (((rec\<lparr>Tokens := Tokens rec @ [t]\<rparr>)\<lparr>Tokens := Tokens (rec\<lparr>Tokens := Tokens rec @ [t]\<rparr>) @ t' # ts\<rparr>, Some err), input')"
    using Cons.IH[OF _ R Cons.prems(3)] Cons.prems(1) by simp
  finally show ?case by simp
qed

lemma recordLoop_done:
  "recordLoop rec t input = ((rec', None), input') \<Longrightarrow>
   \<exists>ts rd tr. t # rd = ts @ [tr] \<and> isTrailerToken tr \<and> (\<forall>x\<in>set ts. \<not> isTrailerToken x) \<and>
     readsTokens input rd input' \<and> rec' = rec\<lparr>Tokens := Tokens rec @ ts\<rparr>"
proof (induction rec t input rule: recordLoop.induct)
  case (1 rec t input)
  show ?case
  proof (cases "isTrailerToken t")
    case True
    then have "rec' = rec" "input' = input" using "1.prems" by (simp_all add: recordLoop_trailer)
    then have "t # [] = [] @ [t] \<and> isTrailerToken t \<and> (\<forall>x\<in>set []. \<not> isTrailerToken x) \<and>
        readsTokens input [] input' \<and> rec' = rec\<lparr>Tokens := Tokens rec @ []\<rparr>"
      using True by simp
    then show ?thesis by blast
  next
    case False
    obtain r input1 where T: "TokenFromByteInput input = (r, input1)" by (metis prod.exhaust)
    show ?thesis
    proof (cases r)
      case (Inl err)
      then show ?thesis using "1.prems" False T by (simp add: recordLoop_fail)
    next
      case (Inr t')
      let ?rec1 = "rec\<lparr>Tokens := Tokens rec @ [t]\<rparr>"
      have "recordLoop ?rec1 t' input1 = ((rec', None), input')"
        using "1.prems" False T Inr by (simp add: recordLoop_next)
      from "1.IH"[OF False refl T[symmetric] Inr this]
      obtain ts rd tr where *: "t' # rd = ts @ [tr]" "isTrailerToken tr"
        "\<forall>x\<in>set ts. \<not> isTrailerToken x" "readsTokens input1 rd input'"
        "rec' = ?rec1\<lparr>Tokens := Tokens ?rec1 @ ts\<rparr>" by blast
      have rd: "readsTokens input (t' # rd) input'"
        using readsTokens_Cons[THEN iffD2] T Inr *(4) by blast
      have "t # (t' # rd) = (t # ts) @ [tr]" using *(1) by simp
      moreover have "\<forall>x\<in>set (t # ts). \<not> isTrailerToken x" using *(3) False by simp
      moreover have "rec' = rec\<lparr>Tokens := Tokens rec @ (t # ts)\<rparr>" using *(5) by simp
      ultimately show ?thesis using *(2) rd by blast
    qed
  qed
qed


text \<open>\<^verbatim>\<open>ReadBsmRecord\<close> once the header token is read.\<close>

lemma ReadBsmRecord_header:
  assumes "TokenFromByteInput input = (Inr header, input1)"
    and "headerTime header = Some (seconds, nanoSeconds)"
  shows "ReadBsmRecord input =
    (case TokenFromByteInput input1 of
       (Inl err, input2) \<Rightarrow>
         ((\<lparr>Seconds = seconds, NanoSeconds = nanoSeconds, Tokens = []\<rparr>, Some err), input2)
     | (Inr nextToken, input2) \<Rightarrow>
         recordLoop \<lparr>Seconds = seconds, NanoSeconds = nanoSeconds, Tokens = []\<rparr> nextToken input2)"
  using assms by (simp add: ReadBsmRecord_def Let_def split: prod.splits sum.splits)

lemma ReadBsmRecord_done:
  assumes "ReadBsmRecord input = ((rec, None), input')"
  shows "\<exists>header trailer. readsTokens input (header # Tokens rec @ [trailer]) input' \<and>
      headerTime header = Some (Seconds rec, NanoSeconds rec) \<and> isTrailerToken trailer \<and>
      (\<forall>t\<in>set (Tokens rec). \<not> isTrailerToken t)"
proof -
  obtain r input1 where T1: "TokenFromByteInput input = (r, input1)" by (metis prod.exhaust)
  then obtain header where r: "r = Inr header"
    using assms by (cases r) (simp_all add: ReadBsmRecord_def)
  obtain seconds nanoSeconds where h: "headerTime header = Some (seconds, nanoSeconds)"
    using assms T1 r by (cases "headerTime header") (auto simp: ReadBsmRecord_def)
  let ?rec1 = "\<lparr>Seconds = seconds, NanoSeconds = nanoSeconds, Tokens = []\<rparr>"
  obtain r2 input2 where T2: "TokenFromByteInput input1 = (r2, input2)" by (metis prod.exhaust)
  then obtain t where r2: "r2 = Inr t"
    using assms ReadBsmRecord_header[OF T1[unfolded r] h] by (cases r2) simp_all
  have "recordLoop ?rec1 t input2 = ((rec, None), input')"
    using assms ReadBsmRecord_header[OF T1[unfolded r] h] T2 r2 by simp
  from recordLoop_done[OF this]
  obtain ts rd tr where *: "t # rd = ts @ [tr]" "isTrailerToken tr"
    "\<forall>x\<in>set ts. \<not> isTrailerToken x" "readsTokens input2 rd input'"
    "rec = ?rec1\<lparr>Tokens := Tokens ?rec1 @ ts\<rparr>" by blast
  have rec: "Tokens rec = ts" "Seconds rec = seconds" "NanoSeconds rec = nanoSeconds"
    using *(5) by simp_all
  have "readsTokens input1 (t # rd) input'"
    using readsTokens_Cons[THEN iffD2] T2 r2 *(4) by blast
  then have "readsTokens input1 (Tokens rec @ [tr]) input'"
    using *(1) rec(1) by simp
  then have "readsTokens input (header # Tokens rec @ [tr]) input'"
    using readsTokens_Cons[THEN iffD2] T1 r by blast
  then show ?thesis using h rec *(2,3) by blast
qed

lemma ReadBsmRecord_complete:
  assumes "readsTokens input (header # ts @ [trailer]) input'"
    and "headerTime header = Some (seconds, nanoSeconds)"
    and "\<forall>t\<in>set ts. \<not> isTrailerToken t" and "isTrailerToken trailer"
  shows "ReadBsmRecord input =
    ((\<lparr>Seconds = seconds, NanoSeconds = nanoSeconds, Tokens = ts\<rparr>, None), input')"
proof -
  obtain input1 where T1: "TokenFromByteInput input = (Inr header, input1)"
    and R1: "readsTokens input1 (ts @ [trailer]) input'"
    using assms(1) readsTokens_Cons[THEN iffD1] by blast
  obtain t rd where trd: "t # rd = ts @ [trailer]" by (cases "ts @ [trailer]") auto
  then have "readsTokens input1 (t # rd) input'" using R1 by simp
  then obtain input2 where T2: "TokenFromByteInput input1 = (Inr t, input2)"
    and R2: "readsTokens input2 rd input'"
    using readsTokens_Cons[THEN iffD1] by blast
  show ?thesis
    using ReadBsmRecord_header[OF T1 assms(2)] T2
      recordLoop_complete[OF assms(3,4) trd R2,
        of "\<lparr>Seconds = seconds, NanoSeconds = nanoSeconds, Tokens = []\<rparr>"]
    by simp
qed

text \<open>
  Claim C2. When \<^verbatim>\<open>ReadBsmRecord\<close> yields a record (its error is \<^verbatim>\<open>nil\<close>), the
  tokens read from the byte source were a header token, then the tokens of the record
  in their order, then a trailer token, and nothing else: the header and the trailer are
  not in the record's token list, which holds no trailer at all, and the record's
  timestamps are those of the header. In particular, when the source delivers a 32-bit
  header token and then a trailer token, the record has an empty token list and the
  header's seconds and nanoseconds widened to 64 bits.
\<close>

theorem record_framing:
  "(ReadBsmRecord input = ((rec, None), input') \<longrightarrow>
      (\<exists>header trailer. readsTokens input (header # Tokens rec @ [trailer]) input' \<and>
         headerTime header = Some (Seconds rec, NanoSeconds rec) \<and> isTrailerToken trailer \<and>
         (\<forall>t\<in>set (Tokens rec). \<not> isTrailerToken t))) \<and>
   (readsTokens input [HeaderToken32bit i c v e m seconds nanoSeconds, trailer] input' \<and>
      isTrailerToken trailer \<longrightarrow>
      ReadBsmRecord input =
        ((\<lparr>Seconds = ucast seconds, NanoSeconds = ucast nanoSeconds, Tokens = []\<rparr>, None), input'))"
  using ReadBsmRecord_done[of input rec input']
    ReadBsmRecord_complete[of input "HeaderToken32bit i c v e m seconds nanoSeconds" "[]" trailer
      input' "ucast seconds" "ucast nanoSeconds"]
  by simp

text \<open>
  Claim C10. When a header token and then the tokens \<open>ts\<close>, none of them a trailer,
  have been read and the next call of \<^verbatim>\<open>TokenFromByteInput\<close> fails with \<open>err\<close>,
  \<^verbatim>\<open>ReadBsmRecord\<close> returns \<open>err\<close> together with the record that carries the
  header's (widened) seconds and nanoseconds and the tokens \<open>ts\<close>, not an empty record.
\<close>

theorem partial_record_on_error:
  assumes "readsTokens input (header # ts) mid"
    and "headerTime header = Some (seconds, nanoSeconds)"
    and "\<forall>t\<in>set ts. \<not> isTrailerToken t"
    and "TokenFromByteInput mid = (Inl err, input')"
  shows "ReadBsmRecord input =
    ((\<lparr>Seconds = seconds, NanoSeconds = nanoSeconds, Tokens = ts\<rparr>, Some err), input')"
proof -
  obtain mid2 where T1: "TokenFromByteInput input = (Inr header, mid2)"
    and R1: "readsTokens mid2 ts mid"
    using assms(1) readsTokens_Cons[THEN iffD1] by blast
  show ?thesis
  proof (cases ts)
    case Nil
    then have "mid = mid2" using R1 by simp
    then show ?thesis using ReadBsmRecord_header[OF T1 assms(2)] assms(4) Nil by simp
  next
    case (Cons t rest)
    then obtain mid3 where T2: "TokenFromByteInput mid2 = (Inr t, mid3)"
      and R2: "readsTokens mid3 rest mid"
      using R1 readsTokens_Cons[THEN iffD1] by blast
    have "\<forall>x\<in>set (t # rest). \<not> isTrailerToken x" using assms(3) Cons by simp
    from recordLoop_error[OF this R2 assms(4),
        of "\<lparr>Seconds = seconds, NanoSeconds = nanoSeconds, Tokens = []\<rparr>"]
    show ?thesis using ReadBsmRecord_header[OF T1 assms(2)] T2 Cons by simp
  qed
qed


text \<open>The definitions that a run on concrete bytes unfolds.\<close>

lemmas run_simps = ReadBsmRecord_def TokenFromByteInput_def Read_def determineTokenSize_def
  readRemaining_def processBuffer_def ParseHeaderToken32bit_def u16At_def u32At_def
  sliceChk_def subslice_def bnd_def bytesToUint16_def bytesToUint32_def recordLoop.simps
  Let_def

text \<open>
  A 32-bit header, the text token "hello" and a trailer; and the header followed at once
  by the trailer.
\<close>

theorem record_framing_witness:
  "ReadBsmRecord [0x14, 0x00, 0x00, 0x00, 0x38, 0x0b, 0xaf, 0xc8, 0x00, 0x00, 0x5a, 0x9a, 0xc2, 0xe6, 0x00, 0x00, 0x03, 0x01, 0x28, 0x00, 0x06, 0x68, 0x65, 0x6c, 0x6c, 0x6f, 0x00, 0x13, 0xb1, 0x05, 0x00, 0x00, 0x00, 0x38]
     = ((\<lparr>Seconds = 0x5a9ac2e6, NanoSeconds = 0x301, Tokens = [TextToken 0x28 6 [0x68, 0x65, 0x6c, 0x6c, 0x6f]]\<rparr>, None), []) \<and>
   (\<exists>header trailer.
      readsTokens [0x14, 0x00, 0x00, 0x00, 0x38, 0x0b, 0xaf, 0xc8, 0x00, 0x00, 0x5a, 0x9a, 0xc2, 0xe6, 0x00, 0x00, 0x03, 0x01, 0x28, 0x00, 0x06, 0x68, 0x65, 0x6c, 0x6c, 0x6f, 0x00, 0x13, 0xb1, 0x05, 0x00, 0x00, 0x00, 0x38]
        (header # [TextToken 0x28 6 [0x68, 0x65, 0x6c, 0x6c, 0x6f]] @ [trailer]) [] \<and>
      headerTime header = Some (0x5a9ac2e6, 0x301) \<and> isTrailerToken trailer) \<and>
   readsTokens [0x14, 0x00, 0x00, 0x00, 0x38, 0x0b, 0xaf, 0xc8, 0x00, 0x00, 0x5a, 0x9a, 0xc2, 0xe6, 0x00, 0x00, 0x03, 0x01, 0x13, 0xb1, 0x05, 0x00, 0x00, 0x00, 0x38]
     [HeaderToken32bit 0x14 56 0x0b 0xafc8 0 0x5a9ac2e6 0x301, TrailerToken 0x13 0xb105 0] [] \<and>
   ReadBsmRecord [0x14, 0x00, 0x00, 0x00, 0x38, 0x0b, 0xaf, 0xc8, 0x00, 0x00, 0x5a, 0x9a, 0xc2, 0xe6, 0x00, 0x00, 0x03, 0x01, 0x13, 0xb1, 0x05, 0x00, 0x00, 0x00, 0x38]
     = ((\<lparr>Seconds = 0x5a9ac2e6, NanoSeconds = 0x301, Tokens = []\<rparr>, None), [])"
  using record_framing[where input = "[0x14, 0x00, 0x00, 0x00, 0x38, 0x0b, 0xaf, 0xc8, 0x00, 0x00, 0x5a, 0x9a, 0xc2, 0xe6, 0x00, 0x00, 0x03, 0x01, 0x28, 0x00, 0x06, 0x68, 0x65, 0x6c, 0x6c, 0x6f, 0x00, 0x13, 0xb1, 0x05, 0x00, 0x00, 0x00, 0x38]"
      and rec = "\<lparr>Seconds = 0x5a9ac2e6, NanoSeconds = 0x301, Tokens = [TextToken 0x28 6 [0x68, 0x65, 0x6c, 0x6c, 0x6f]]\<rparr>" and input' = "[]"]
    record_framing[where input = "[0x14, 0x00, 0x00, 0x00, 0x38, 0x0b, 0xaf, 0xc8, 0x00, 0x00, 0x5a, 0x9a, 0xc2, 0xe6, 0x00, 0x00, 0x03, 0x01, 0x13, 0xb1, 0x05, 0x00, 0x00, 0x00, 0x38]"
      and input' = "[]" and i = "0x14" and c = 56 and v = "0x0b" and e = "0xafc8" and m = 0
      and seconds = "0x5a9ac2e6" and nanoSeconds = "0x301" and trailer = "TrailerToken 0x13 0xb105 0"]
  by (simp add: run_simps)

text \<open>
  The header and the text token followed by the unknown token ID 0xff, and by the end of
  the data: the record returned with the error holds the timestamps and the text token.
\<close>

theorem partial_record_on_error_witness:
  "readsTokens [0x14, 0x00, 0x00, 0x00, 0x38, 0x0b, 0xaf, 0xc8, 0x00, 0x00, 0x5a, 0x9a, 0xc2, 0xe6, 0x00, 0x00, 0x03, 0x01, 0x28, 0x00, 0x06, 0x68, 0x65, 0x6c, 0x6c, 0x6f, 0x00, 0xff]
     [HeaderToken32bit 0x14 56 0x0b 0xafc8 0 0x5a9ac2e6 0x301, TextToken 0x28 6 [0x68, 0x65, 0x6c, 0x6c, 0x6f]] [0xff] \<and>
   TokenFromByteInput [0xff] = (Inl (ErrUnknownSize 0xff), []) \<and>
   ReadBsmRecord [0x14, 0x00, 0x00, 0x00, 0x38, 0x0b, 0xaf, 0xc8, 0x00, 0x00, 0x5a, 0x9a, 0xc2, 0xe6, 0x00, 0x00, 0x03, 0x01, 0x28, 0x00, 0x06, 0x68, 0x65, 0x6c, 0x6c, 0x6f, 0x00, 0xff]
     = ((\<lparr>Seconds = 0x5a9ac2e6, NanoSeconds = 0x301, Tokens = [TextToken 0x28 6 [0x68, 0x65, 0x6c, 0x6c, 0x6f]]\<rparr>, Some (ErrUnknownSize 0xff)), []) \<and>
   ReadBsmRecord [0x14, 0x00, 0x00, 0x00, 0x38, 0x0b, 0xaf, 0xc8, 0x00, 0x00, 0x5a, 0x9a, 0xc2, 0xe6, 0x00, 0x00, 0x03, 0x01, 0x28, 0x00, 0x06, 0x68, 0x65, 0x6c, 0x6c, 0x6f, 0x00]
     = ((\<lparr>Seconds = 0x5a9ac2e6, NanoSeconds = 0x301, Tokens = [TextToken 0x28 6 [0x68, 0x65, 0x6c, 0x6c, 0x6f]]\<rparr>, Some EOF), [])"
  using partial_record_on_error[where input = "[0x14, 0x00, 0x00, 0x00, 0x38, 0x0b, 0xaf, 0xc8, 0x00, 0x00, 0x5a, 0x9a, 0xc2, 0xe6, 0x00, 0x00, 0x03, 0x01, 0x28, 0x00, 0x06, 0x68, 0x65, 0x6c, 0x6c, 0x6f, 0x00, 0xff]"
      and header = "HeaderToken32bit 0x14 56 0x0b 0xafc8 0 0x5a9ac2e6 0x301" and ts = "[TextToken 0x28 6 [0x68, 0x65, 0x6c, 0x6c, 0x6f]]" and mid = "[0xff]"
      and seconds = "0x5a9ac2e6" and nanoSeconds = "0x301" and err = "ErrUnknownSize 0xff" and input' = "[]"]
    partial_record_on_error[where input = "[0x14, 0x00, 0x00, 0x00, 0x38, 0x0b, 0xaf, 0xc8, 0x00, 0x00, 0x5a, 0x9a, 0xc2, 0xe6, 0x00, 0x00, 0x03, 0x01, 0x28, 0x00, 0x06, 0x68, 0x65, 0x6c, 0x6c, 0x6f, 0x00]"
      and header = "HeaderToken32bit 0x14 56 0x0b 0xafc8 0 0x5a9ac2e6 0x301" and ts = "[TextToken 0x28 6 [0x68, 0x65, 0x6c, 0x6c, 0x6f]]" and mid = "[]"
      and seconds = "0x5a9ac2e6" and nanoSeconds = "0x301" and err = EOF and input' = "[]"]
  by (simp add: run_simps)

end
